theory Spec2Isabelle
  imports Main "HOL-Library.AList" "HOL-Library.Product_Lexorder" "HOL-Library.List_Lexorder"
begin

section \<open>The comparison core of \<open>services/comparator.py\<close>\<close>

text \<open>
  \<open>compare_queries\<close> reads two result sets into pandas frames and then works on the
  frames only. The embedding starts after the two \<open>pd.read_sql\<close> calls: the frames
  \<open>df1\<close> and \<open>df2\<close> are the inputs, together with \<open>mappings\<close> and \<open>primary_keys\<close>.
  The wall-clock field \<open>execution_time\<close> of the summary is left out.

  The pandas operations the function calls (\<open>rename\<close>, \<open>merge\<close>, boolean selection,
  \<open>iterrows\<close>, \<open>head\<close>, \<open>to_dict('records')\<close>) are modelled as pandas (2.2 and later)
  documents and implements them:
  \<^item> a cell of an input frame is \<open>None\<close>, the missing marker \<open>NaN\<close>, an \<open>int\<close> or a
    \<open>str\<close>. A column whose cells are all integers has dtype int64, every other column
    dtype object. Input columns of floats, booleans, timestamps or bytes are outside
    the model: the type of cells has no such values;
  \<^item> the join turns an int64 column into float64 when it adds a missing cell to it, so
    a cell of the joined frame is a cell of an input or the float an integer became.
    The float of an integer \<open>n\<close> is exact, and printed as the digits of \<open>n\<close> followed by
    \<open>.0\<close>, for \<open>|n| < 2^53\<close>; the model is meant for such integers;
  \<^item> a row lookup \<open>row[label]\<close> is modelled for a label that occurs once in the frame;
    for a label that occurs twice pandas gives a Series, which has no counterpart
    here. The lookups at \<open>_merge\<close> and at the key labels of the input frames are always
    at labels that occur once (pandas raises otherwise); every statement below about
    the other lookups assumes that the labels of the joined frame are distinct.
\<close>

subsection \<open>Cells and frames\<close>

datatype pyval = PyNone | NaN | PyInt int | PyStr string

text \<open>A cell of the joined frame: an object of an input frame as it was, or the float64
  value that the join made of an integer.\<close>

datatype outval = Obj pyval | PyFloat int

type_synonym label = string

record 'v DataFrame =
  columns :: "label list"
  rows :: "'v list list"

text \<open>A frame is rectangular: every row has one cell per column.\<close>

definition wf_df :: "'v DataFrame \<Rightarrow> bool" where
  "wf_df df = list_all (\<lambda>r. length r = length (columns df)) (rows df)"

text \<open>\<open>pd.isna\<close>: \<open>None\<close> and \<open>NaN\<close> are both missing values.\<close>

fun isna :: "pyval \<Rightarrow> bool" where
  "isna PyNone = True"
| "isna NaN = True"
| "isna _ = False"

fun is_int :: "pyval \<Rightarrow> bool" where
  "is_int (PyInt n) = True"
| "is_int _ = False"

subsection \<open>Python's \<open>str\<close>\<close>

definition digit_char :: "nat \<Rightarrow> char" where
  "digit_char d = char_of (48 + d)"

fun str_nat :: "nat \<Rightarrow> string" where
  "str_nat n = (if n < 10 then [digit_char n] else str_nat (n div 10) @ [digit_char (n mod 10)])"

declare str_nat.simps [simp del]

definition str_int :: "int \<Rightarrow> string" where
  "str_int i = (if i < 0 then CHR ''-'' # str_nat (nat (- i)) else str_nat (nat i))"

fun py_str :: "pyval \<Rightarrow> string" where
  "py_str PyNone = ''None''"
| "py_str NaN = ''nan''"
| "py_str (PyInt i) = str_int i"
| "py_str (PyStr s) = s"

text \<open>\<open>str\<close> of a cell of the joined frame; \<open>str(5.0)\<close> is \<open>'5.0'\<close>.\<close>

fun out_str :: "outval \<Rightarrow> string" where
  "out_str (Obj v) = py_str v"
| "out_str (PyFloat n) = str_int n @ ''.0''"

subsection \<open>Errors raised by pandas\<close>

datatype error =
    KeyError label    \<comment> \<open>a join key is not a column of one of the frames\<close>
  | ValueError        \<comment> \<open>a join key label is not unique, the two columns of a key have
                          incompatible dtypes, or \<open>_merge\<close> is already a column\<close>
  | IndexError        \<comment> \<open>\<open>on=[]\<close>: there is no key to join on\<close>
  | MergeError        \<comment> \<open>the suffixes produce a duplicate column\<close>

subsection \<open>Column mapping\<close>

text \<open>
  \<open>mappings\<close> is a list of dicts with the entries \<open>'left'\<close> and \<open>'right'\<close>, here pairs
  \<open>(left, right)\<close>. A Python dict is an association list in insertion order;
  \<open>d[k] = v\<close> is \<open>AList.update k v d\<close>.
  \<^verbatim>\<open>
    mapping_dict = {}
    for m in mappings:
        mapping_dict[m['left']] = m['right']
    reverse_map = {v: k for k, v in mapping_dict.items()}
    df2_renamed = df2.rename(columns=mapping_dict)
  \<close>
\<close>

definition mapping_dict :: "(label \<times> label) list \<Rightarrow> (label \<times> label) list" where
  "mapping_dict mappings = foldl (\<lambda>d m. AList.update (fst m) (snd m) d) [] mappings"

definition reverse_map :: "(label \<times> label) list \<Rightarrow> (label \<times> label) list" where
  "reverse_map md = foldl (\<lambda>d kv. AList.update (snd kv) (fst kv) d) [] md"

text \<open>\<open>DataFrame.rename(columns=d)\<close>: a label that is a key of \<open>d\<close> is replaced by its
  value, every other label stays; keys of \<open>d\<close> that are no label are ignored.\<close>

definition rename :: "'v DataFrame \<Rightarrow> (label \<times> label) list \<Rightarrow> 'v DataFrame" where
  "rename df d =
     df\<lparr>columns := map (\<lambda>c. case map_of d c of Some c' \<Rightarrow> c' | None \<Rightarrow> c) (columns df)\<rparr>"

text \<open>\<^verbatim>\<open>common_columns = [col for col in df1.columns if col in df2_renamed.columns]\<close>\<close>

definition common_columns :: "'v DataFrame \<Rightarrow> 'v DataFrame \<Rightarrow> label list" where
  "common_columns df1 df2_renamed =
     filter (\<lambda>col. col \<in> set (columns df2_renamed)) (columns df1)"

text \<open>\<^verbatim>\<open>join_keys = primary_keys if primary_keys else common_columns[:1]\<close>\<close>

definition join_keys :: "label list \<Rightarrow> label list \<Rightarrow> label list" where
  "join_keys primary_keys common = (if primary_keys \<noteq> [] then primary_keys else take 1 common)"

subsection \<open>\<open>pd.merge(..., how='outer', suffixes=('_query1', '_query2'), indicator=True)\<close>\<close>

text \<open>The cell of a row of an input frame under a label: the first cell with that
  label, which is \<open>row[label]\<close> when the label occurs once. Under a label that occurs
  more than once pandas gives all its cells as a \<open>Series\<close>: the key labels occur once
  when the join goes through (\<open>check_keys\<close>), and what is proved of the data cells of the
  joined frame is proved for frames with distinct labels (\<open>labels_unique\<close> below). The
  program looks up labels of the frame only; at any other label the model gives \<open>NaN\<close>.\<close>

definition get_cell :: "label list \<Rightarrow> pyval list \<Rightarrow> label \<Rightarrow> pyval" where
  "get_cell cols row l = (case map_of (zip cols row) l of Some v \<Rightarrow> v | None \<Rightarrow> NaN)"

text \<open>The same for a row of the joined frame.\<close>

definition out_cell :: "label list \<Rightarrow> outval list \<Rightarrow> label \<Rightarrow> outval" where
  "out_cell cols row l = (case map_of (zip cols row) l of Some v \<Rightarrow> v | None \<Rightarrow> Obj NaN)"

text \<open>Each key is looked up in the right frame, then in the left one: a label that is
  missing raises \<open>KeyError\<close>, one that occurs more than once \<open>ValueError\<close>.\<close>

fun check_keys :: "label list \<Rightarrow> label list \<Rightarrow> label list \<Rightarrow> error option" where
  "check_keys lcols rcols [] = None"
| "check_keys lcols rcols (k # ks) =
     (if k \<notin> set rcols then Some (KeyError k)
      else if 1 < count_list rcols k then Some ValueError
      else if k \<notin> set lcols then Some (KeyError k)
      else if 1 < count_list lcols k then Some ValueError
      else check_keys lcols rcols ks)"

text \<open>The dtype of a column: int64 when the frame has rows and every cell of the column
  is an integer, object otherwise.\<close>

definition int64_column :: "pyval DataFrame \<Rightarrow> label \<Rightarrow> bool" where
  "int64_column df c =
     (rows df \<noteq> [] \<and> list_all (\<lambda>r. is_int (get_cell (columns df) r c)) (rows df))"

text \<open>What \<open>infer_dtype\<close> calls \<open>string\<close> or \<open>mixed\<close>: a column without integers that
  holds a \<open>str\<close> or \<open>None\<close>.\<close>

definition string_like_column :: "pyval DataFrame \<Rightarrow> label \<Rightarrow> bool" where
  "string_like_column df c =
     (\<not> list_ex (\<lambda>r. is_int (get_cell (columns df) r c)) (rows df)
      \<and> list_ex (\<lambda>r. case get_cell (columns df) r c of
                        PyStr s \<Rightarrow> True | PyNone \<Rightarrow> True | _ \<Rightarrow> False) (rows df))"

text \<open>The check of the key dtypes (\<open>_maybe_coerce_merge_keys\<close>): when both frames have
  rows, an int64 key column against a string-like one raises \<open>ValueError\<close>
  (\<open>You are trying to merge on int64 and object columns\<close>).\<close>

definition key_dtype_clash :: "pyval DataFrame \<Rightarrow> pyval DataFrame \<Rightarrow> label \<Rightarrow> bool" where
  "key_dtype_clash left right k =
     (rows left \<noteq> [] \<and> rows right \<noteq> []
      \<and> ((int64_column left k \<and> string_like_column right k)
         \<or> (string_like_column left k \<and> int64_column right k)))"

text \<open>The join compares factorised keys: the factoriser gives all missing values of a
  key column one code, so \<open>None\<close> and \<open>NaN\<close> keys are one key.\<close>

fun key_code :: "pyval \<Rightarrow> pyval" where
  "key_code PyNone = NaN"
| "key_code v = v"

definition key_of :: "label list \<Rightarrow> label list \<Rightarrow> pyval list \<Rightarrow> pyval list" where
  "key_of cols on row = map (\<lambda>k. key_code (get_cell cols row k)) on"

text \<open>The keys in order of first appearance.\<close>

definition uniques :: "'a list \<Rightarrow> 'a list" where
  "uniques xs = rev (remdups (rev xs))"

text \<open>An outer join sorts the keys (\<open>how='outer'\<close>: sort keys lexicographically): the
  values of a key column in the order integers by value, then strings as Python compares
  them, then the missing value; key tuples column after column.\<close>

fun key_rank :: "pyval \<Rightarrow> nat \<times> int \<times> nat list" where
  "key_rank (PyInt n) = (0, n, [])"
| "key_rank (PyStr s) = (1, 0, map of_char s)"
| "key_rank NaN = (2, 0, [])"
| "key_rank PyNone = (2, 0, [])"

definition sorted_keys :: "pyval list list \<Rightarrow> pyval list list" where
  "sorted_keys ks = sort_key (map key_rank) (uniques ks)"

text \<open>The full outer join on two lists of keys, as pairs of row positions (the
  left and right indexers of pandas, \<open>None\<close> for its \<open>-1\<close>): one group per key, the
  groups in the order of the keys; a key on both sides gives every pairing of its left
  rows with its right rows, a key on one side its rows, all in the order of the frames.\<close>

definition join_group :: "'k list \<Rightarrow> 'k list \<Rightarrow> 'k \<Rightarrow> (nat option \<times> nat option) list" where
  "join_group lk rk k =
     (let ls = filter (\<lambda>i. lk ! i = k) [0..<length lk];
          rs = filter (\<lambda>j. rk ! j = k) [0..<length rk]
      in if rs = [] then map (\<lambda>i. (Some i, None)) ls
         else if ls = [] then map (\<lambda>j. (None, Some j)) rs
         else concat (map (\<lambda>i. map (\<lambda>j. (Some i, Some j)) rs) ls))"

definition full_outer_join ::
  "pyval list list \<Rightarrow> pyval list list \<Rightarrow> (nat option \<times> nat option) list" where
  "full_outer_join lk rk = concat (map (join_group lk rk) (sorted_keys (lk @ rk)))"

definition join_indexers ::
  "pyval DataFrame \<Rightarrow> pyval DataFrame \<Rightarrow> label list \<Rightarrow> (nat option \<times> nat option) list" where
  "join_indexers left right on =
     full_outer_join (map (key_of (columns left) on) (rows left))
                     (map (key_of (columns right) on) (rows right))"

text \<open>The labels of the result. The key columns of the right frame are dropped; a
  label that is then in both frames gets the suffix of its side.\<close>

definition right_kept :: "label list \<Rightarrow> label list \<Rightarrow> label list" where
  "right_kept rcols on = filter (\<lambda>c. c \<notin> set on) rcols"

definition suffixed :: "label list \<Rightarrow> label list \<Rightarrow> string \<Rightarrow> label \<Rightarrow> label" where
  "suffixed lcols rcols suffix c = (if c \<in> set lcols \<and> c \<in> set rcols then c @ suffix else c)"

definition duplicated :: "'a list \<Rightarrow> nat \<Rightarrow> bool" where
  "duplicated xs p = (xs ! p \<in> set (take p xs))"

text \<open>The duplicates that the suffixes cause: positions that repeat an earlier label
  after the renaming and did not before it.\<close>

definition suffix_dups :: "label list \<Rightarrow> label list \<Rightarrow> label list" where
  "suffix_dups old new =
     map (\<lambda>p. new ! p) (filter (\<lambda>p. duplicated new p \<and> \<not> duplicated old p) [0..<length new])"

definition merged_columns :: "label list \<Rightarrow> label list \<Rightarrow> label list \<Rightarrow> label list" where
  "merged_columns lcols rcols on =
     (let rk = right_kept rcols on
      in map (suffixed lcols rk ''_query1'') lcols @ map (suffixed lcols rk ''_query2'') rk
         @ [''_merge''])"

text \<open>The cells of the result. A column that gets a missing cell is promoted: an int64
  column becomes float64 and its integers floats, an object column keeps its objects.
  The columns of the left frame outside the key get missing cells when the result has a
  row of the right frame only, the columns of the right frame when it has a row of the
  left frame only; a key column takes its cells from the side that has the row.\<close>

definition has_left_only :: "(nat option \<times> nat option) list \<Rightarrow> bool" where
  "has_left_only idx = list_ex (\<lambda>p. snd p = None) idx"

definition has_right_only :: "(nat option \<times> nat option) list \<Rightarrow> bool" where
  "has_right_only idx = list_ex (\<lambda>p. fst p = None) idx"

fun to_out :: "bool \<Rightarrow> pyval \<Rightarrow> outval" where
  "to_out promoted (PyInt n) = (if promoted then PyFloat n else Obj (PyInt n))"
| "to_out promoted v = Obj v"

definition left_promoted ::
  "pyval DataFrame \<Rightarrow> label list \<Rightarrow> (nat option \<times> nat option) list \<Rightarrow> label \<Rightarrow> bool" where
  "left_promoted left on idx c = (c \<notin> set on \<and> int64_column left c \<and> has_right_only idx)"

definition right_promoted ::
  "pyval DataFrame \<Rightarrow> (nat option \<times> nat option) list \<Rightarrow> label \<Rightarrow> bool" where
  "right_promoted right idx c = (int64_column right c \<and> has_left_only idx)"

definition left_cells ::
  "pyval DataFrame \<Rightarrow> label list \<Rightarrow> (nat option \<times> nat option) list \<Rightarrow> nat \<Rightarrow> outval list" where
  "left_cells left on idx i =
     map (\<lambda>cv. to_out (left_promoted left on idx (fst cv)) (snd cv))
         (zip (columns left) (rows left ! i))"

definition right_cells ::
  "pyval DataFrame \<Rightarrow> label list \<Rightarrow> (nat option \<times> nat option) list \<Rightarrow> nat \<Rightarrow> outval list" where
  "right_cells right on idx j =
     map (\<lambda>cv. to_out (right_promoted right idx (fst cv)) (snd cv))
         (filter (\<lambda>cv. fst cv \<notin> set on) (zip (columns right) (rows right ! j)))"

text \<open>The rows of the result. A row on both sides has the cells of the left row, the
  cells of the right row outside the key columns and the indicator; a row of one side
  has \<open>NaN\<close> for the cells of the other side, and a right-only row has its key cells in
  the key columns.\<close>

fun merged_row ::
  "pyval DataFrame \<Rightarrow> pyval DataFrame \<Rightarrow> label list \<Rightarrow> (nat option \<times> nat option) list
     \<Rightarrow> nat option \<times> nat option \<Rightarrow> outval list" where
  "merged_row left right on idx (Some i, Some j) =
     left_cells left on idx i @ right_cells right on idx j @ [Obj (PyStr ''both'')]"
| "merged_row left right on idx (Some i, None) =
     left_cells left on idx i @ map (\<lambda>c. Obj NaN) (right_kept (columns right) on)
     @ [Obj (PyStr ''left_only'')]"
| "merged_row left right on idx (None, Some j) =
     map (\<lambda>c. if c \<in> set on then Obj (get_cell (columns right) (rows right ! j) c)
               else Obj NaN)
         (columns left)
     @ right_cells right on idx j @ [Obj (PyStr ''right_only'')]"
| "merged_row left right on idx (None, None) = []"

definition pd_merge ::
  "pyval DataFrame \<Rightarrow> pyval DataFrame \<Rightarrow> label list \<Rightarrow> error + outval DataFrame" where
  "pd_merge left right on =
     (let lcols = columns left; rcols = columns right; rk = right_kept rcols on;
          idx = join_indexers left right on
      in case check_keys lcols rcols on of
           Some e \<Rightarrow> Inl e
         | None \<Rightarrow>
             if list_ex (key_dtype_clash left right) on then Inl ValueError
             else if (\<exists>l \<in> set [''_left_indicator'', ''_right_indicator'', ''_merge''].
                        l \<in> set lcols \<or> l \<in> set rcols)
             then Inl ValueError
             else if on = [] then Inl IndexError
             else if suffix_dups lcols (map (suffixed lcols rk ''_query1'') lcols) \<noteq> []
                     \<or> suffix_dups rk (map (suffixed lcols rk ''_query2'') rk) \<noteq> []
             then Inl MergeError
             else Inr \<lparr>columns = merged_columns lcols rcols on,
                       rows = map (merged_row left right on idx) idx\<rparr>)"

subsection \<open>The report\<close>

record summary_t =
  total_rows_query1 :: nat
  total_rows_query2 :: nat
  n_matches :: nat
  n_only_in_query1 :: nat
  n_only_in_query2 :: nat
  n_mismatches :: nat

text \<open>A mismatch: the dict \<open>key\<close> and the dict \<open>differences\<close>, whose values are the
  dicts \<open>{"query1": val1, "query2": val2}\<close>, here the pairs \<open>(val1, val2)\<close>.\<close>

record mismatch =
  key :: "(label \<times> outval) list"
  differences :: "(label \<times> outval \<times> outval) list"

record columns_t =
  query1 :: "label list"
  query2 :: "label list"
  mapped :: "label list"

record report =
  summary :: summary_t
  matches :: "(label \<times> outval) list list"
  only_in_query1 :: "(label \<times> outval) list list"
  only_in_query2 :: "(label \<times> outval) list list"
  mismatches :: "mismatch list"
  columns_info :: columns_t

subsection \<open>\<open>compare_queries\<close>\<close>

text \<open>\<^verbatim>\<open>merged[merged['_merge'] == tag]\<close>\<close>

definition select_merge :: "outval DataFrame \<Rightarrow> string \<Rightarrow> outval DataFrame" where
  "select_merge merged tag =
     merged\<lparr>rows := filter (\<lambda>r. out_cell (columns merged) r ''_merge'' = Obj (PyStr tag))
                            (rows merged)\<rparr>"

text \<open>
  \<^verbatim>\<open>
    row_mismatches = {}
    for col in common_columns:
        if col not in join_keys:
            val1 = row[f"{col}_query1"]
            val2 = row[f"{col}_query2"]
            if str(val1) != str(val2):
                row_mismatches[col] = {"query1": val1, "query2": val2}
  \<close>
\<close>

definition row_mismatches ::
  "label list \<Rightarrow> label list \<Rightarrow> label list \<Rightarrow> outval list
     \<Rightarrow> (label \<times> outval \<times> outval) list" where
  "row_mismatches cols common keys row =
     foldl (\<lambda>d col.
              if col \<notin> set keys then
                (let val1 = out_cell cols row (col @ ''_query1'');
                     val2 = out_cell cols row (col @ ''_query2'')
                 in if out_str val1 \<noteq> out_str val2 then AList.update col (val1, val2) d else d)
              else d)
           [] common"

text \<open>\<^verbatim>\<open>{k: row[k] for k in join_keys}\<close>\<close>

definition key_dict :: "label list \<Rightarrow> label list \<Rightarrow> outval list \<Rightarrow> (label \<times> outval) list" where
  "key_dict cols keys row = foldl (\<lambda>d k. AList.update k (out_cell cols row k) d) [] keys"

text \<open>
  \<^verbatim>\<open>
    mismatches = []
    for idx, row in matches.iterrows():
        ...
        if row_mismatches:
            mismatches.append({"key": ..., "differences": row_mismatches})
  \<close>
\<close>

definition find_mismatches ::
  "outval DataFrame \<Rightarrow> label list \<Rightarrow> label list \<Rightarrow> mismatch list" where
  "find_mismatches matches_df common keys =
     concat (map (\<lambda>row.
                    let row_mm = row_mismatches (columns matches_df) common keys row
                    in if row_mm \<noteq> []
                       then [\<lparr>key = key_dict (columns matches_df) keys row,
                              differences = row_mm\<rparr>]
                       else [])
                 (rows matches_df))"

text \<open>\<open>to_dict('records')\<close> makes of each row the dict \<open>dict(zip(columns, row))\<close>: a label
  that occurs again replaces the value of its first occurrence.\<close>

definition py_dict :: "('k \<times> 'v) list \<Rightarrow> ('k \<times> 'v) list" where
  "py_dict kvs = foldl (\<lambda>d kv. AList.update (fst kv) (snd kv) d) [] kvs"

text \<open>\<^verbatim>\<open>df.head(100).to_dict('records') if not df.empty else []\<close>\<close>

definition head_records :: "outval DataFrame \<Rightarrow> (label \<times> outval) list list" where
  "head_records df =
     (if rows df \<noteq> [] then map (\<lambda>r. py_dict (zip (columns df) r)) (take 100 (rows df))
      else [])"

definition compare_queries ::
  "pyval DataFrame \<Rightarrow> pyval DataFrame \<Rightarrow> (label \<times> label) list \<Rightarrow> label list
     \<Rightarrow> error + report" where
  "compare_queries df1 df2 mappings primary_keys =
     (let md = mapping_dict mappings;
          df2_renamed = rename df2 md;
          common = common_columns df1 df2_renamed;
          keys = join_keys primary_keys common
      in case pd_merge df1 df2_renamed keys of
           Inl e \<Rightarrow> Inl e
         | Inr merged \<Rightarrow>
             (let matches_df = select_merge merged ''both'';
                  only_query1 = select_merge merged ''left_only'';
                  only_query2 = select_merge merged ''right_only'';
                  mms = find_mismatches matches_df common keys
              in Inr \<lparr>summary =
                        \<lparr>total_rows_query1 = length (rows df1),
                         total_rows_query2 = length (rows df2),
                         n_matches = length (rows matches_df),
                         n_only_in_query1 = length (rows only_query1),
                         n_only_in_query2 = length (rows only_query2),
                         n_mismatches = length mms\<rparr>,
                      matches = head_records matches_df,
                      only_in_query1 = head_records only_query1,
                      only_in_query2 = head_records only_query2,
                      mismatches = take 100 mms,
                      columns_info =
                        \<lparr>query1 = columns df1, query2 = columns df2, mapped = common\<rparr>\<rparr>))"


subsection \<open>The quantities the properties are stated in\<close>

text \<open>The indicator of an aligned pair, the value of its \<open>_merge\<close> cell.\<close>

fun indicator :: "nat option \<times> nat option \<Rightarrow> string" where
  "indicator (Some i, Some j) = ''both''"
| "indicator (Some i, None) = ''left_only''"
| "indicator (None, Some j) = ''right_only''"
| "indicator (None, None) = ''''"

text \<open>The intermediate values of \<open>compare_queries\<close>: \<open>df2_renamed\<close>, \<open>common_columns\<close>
  and \<open>join_keys\<close>, as functions of the inputs.\<close>

definition renamed :: "'v DataFrame \<Rightarrow> (label \<times> label) list \<Rightarrow> 'v DataFrame" where
  "renamed df2 mappings = rename df2 (mapping_dict mappings)"

definition shared_columns ::
  "'v DataFrame \<Rightarrow> 'v DataFrame \<Rightarrow> (label \<times> label) list \<Rightarrow> label list" where
  "shared_columns df1 df2 mappings = common_columns df1 (renamed df2 mappings)"

definition keys_used ::
  "'v DataFrame \<Rightarrow> 'v DataFrame \<Rightarrow> (label \<times> label) list \<Rightarrow> label list \<Rightarrow> label list" where
  "keys_used df1 df2 mappings primary_keys =
     join_keys primary_keys (shared_columns df1 df2 mappings)"

text \<open>The cell of row \<open>i\<close> of an input frame under a label.\<close>

definition cell :: "pyval DataFrame \<Rightarrow> nat \<Rightarrow> label \<Rightarrow> pyval" where
  "cell df i c = get_cell (columns df) (rows df ! i) c"

text \<open>Two rows have the same key.\<close>

definition same_key ::
  "pyval DataFrame \<Rightarrow> pyval DataFrame \<Rightarrow> label list \<Rightarrow> nat \<Rightarrow> nat \<Rightarrow> bool" where
  "same_key left right keys i j =
     (key_of (columns left) keys (rows left ! i) = key_of (columns right) keys (rows right ! j))"

text \<open>The alignment that the join of \<open>compare_queries\<close> computes, the labels of the joined
  frame and its row for an aligned pair.\<close>

definition alignment ::
  "pyval DataFrame \<Rightarrow> pyval DataFrame \<Rightarrow> (label \<times> label) list \<Rightarrow> label list
     \<Rightarrow> (nat option \<times> nat option) list" where
  "alignment df1 df2 mappings primary_keys =
     join_indexers df1 (renamed df2 mappings) (keys_used df1 df2 mappings primary_keys)"

definition joined_columns ::
  "pyval DataFrame \<Rightarrow> pyval DataFrame \<Rightarrow> (label \<times> label) list \<Rightarrow> label list \<Rightarrow> label list" where
  "joined_columns df1 df2 mappings primary_keys =
     merged_columns (columns df1) (columns (renamed df2 mappings))
       (keys_used df1 df2 mappings primary_keys)"

definition joined_row ::
  "pyval DataFrame \<Rightarrow> pyval DataFrame \<Rightarrow> (label \<times> label) list \<Rightarrow> label list
     \<Rightarrow> nat option \<times> nat option \<Rightarrow> outval list" where
  "joined_row df1 df2 mappings primary_keys p =
     merged_row df1 (renamed df2 mappings) (keys_used df1 df2 mappings primary_keys)
       (alignment df1 df2 mappings primary_keys) p"

text \<open>The labels of the joined frame are pairwise distinct.\<close>

definition labels_unique ::
  "pyval DataFrame \<Rightarrow> pyval DataFrame \<Rightarrow> (label \<times> label) list \<Rightarrow> label list \<Rightarrow> bool" where
  "labels_unique df1 df2 mappings primary_keys =
     distinct (merged_columns (columns df1) (columns (renamed df2 mappings))
                 (keys_used df1 df2 mappings primary_keys))"

text \<open>The untruncated lists: the rows of a category as records, the frame \<open>matches\<close> and
  the mismatches found in it.\<close>

definition category_records ::
  "pyval DataFrame \<Rightarrow> pyval DataFrame \<Rightarrow> (label \<times> label) list \<Rightarrow> label list \<Rightarrow> string
     \<Rightarrow> (label \<times> outval) list list" where
  "category_records df1 df2 mappings primary_keys tag =
     map (\<lambda>p. py_dict (zip (joined_columns df1 df2 mappings primary_keys)
                            (joined_row df1 df2 mappings primary_keys p)))
         (filter (\<lambda>p. indicator p = tag) (alignment df1 df2 mappings primary_keys))"

definition matches_frame ::
  "pyval DataFrame \<Rightarrow> pyval DataFrame \<Rightarrow> (label \<times> label) list \<Rightarrow> label list
     \<Rightarrow> outval DataFrame" where
  "matches_frame df1 df2 mappings primary_keys =
     \<lparr>columns = joined_columns df1 df2 mappings primary_keys,
      rows = map (joined_row df1 df2 mappings primary_keys)
                 (filter (\<lambda>p. indicator p = ''both'')
                    (alignment df1 df2 mappings primary_keys))\<rparr>"

definition all_mismatches ::
  "pyval DataFrame \<Rightarrow> pyval DataFrame \<Rightarrow> (label \<times> label) list \<Rightarrow> label list
     \<Rightarrow> mismatch list" where
  "all_mismatches df1 df2 mappings primary_keys =
     find_mismatches (matches_frame df1 df2 mappings primary_keys)
       (shared_columns df1 df2 mappings) (keys_used df1 df2 mappings primary_keys)"






text \<open>The cell of an input frame that a cell of the joined frame came from.\<close>

fun out_plain :: "outval \<Rightarrow> pyval" where
  "out_plain (Obj v) = v"
| "out_plain (PyFloat n) = PyInt n"

text \<open>A row of the joined frame has the cells under the labels of the left frame first,
  then the cells under the labels that the right frame brings, then the \<open>_merge\<close> cell.
  The two parts of a row, and the cells of row \<open>j\<close> of a frame outside the key.\<close>

definition left_part :: "'v DataFrame \<Rightarrow> outval list \<Rightarrow> outval list" where
  "left_part df1 row = take (length (columns df1)) row"

definition right_part :: "'v DataFrame \<Rightarrow> 'v DataFrame \<Rightarrow> label list \<Rightarrow> outval list \<Rightarrow> outval list" where
  "right_part df1 right keys row =
     take (length (right_kept (columns right) keys)) (drop (length (columns df1)) row)"

definition non_key_cells :: "pyval DataFrame \<Rightarrow> label list \<Rightarrow> nat \<Rightarrow> pyval list" where
  "non_key_cells right keys j =
     map snd (filter (\<lambda>cv. fst cv \<notin> set keys) (zip (columns right) (rows right ! j)))"

subsection \<open>The example of the specification and other inputs\<close>

definition example_left :: "pyval DataFrame" where
  "example_left =
     \<lparr>columns = [''id'', ''name''],
      rows = [[PyInt 1, PyStr ''A''], [PyInt 2, PyStr ''B'']]\<rparr>"

definition example_right :: "pyval DataFrame" where
  "example_right =
     \<lparr>columns = [''id'', ''name''],
      rows = [[PyInt 1, PyStr ''A''], [PyInt 2, PyStr ''C''], [PyInt 3, PyStr ''D'']]\<rparr>"

definition example_report :: report where
  "example_report =
     \<lparr>summary =
        \<lparr>total_rows_query1 = 2, total_rows_query2 = 3, n_matches = 2,
         n_only_in_query1 = 0, n_only_in_query2 = 1, n_mismatches = 1\<rparr>,
      matches =
        [[(''id'', Obj (PyInt 1)), (''name_query1'', Obj (PyStr ''A'')),
          (''name_query2'', Obj (PyStr ''A'')), (''_merge'', Obj (PyStr ''both''))],
         [(''id'', Obj (PyInt 2)), (''name_query1'', Obj (PyStr ''B'')),
          (''name_query2'', Obj (PyStr ''C'')), (''_merge'', Obj (PyStr ''both''))]],
      only_in_query1 = [],
      only_in_query2 =
        [[(''id'', Obj (PyInt 3)), (''name_query1'', Obj NaN),
          (''name_query2'', Obj (PyStr ''D'')), (''_merge'', Obj (PyStr ''right_only''))]],
      mismatches =
        [\<lparr>key = [(''id'', Obj (PyInt 2))],
          differences = [(''name'', Obj (PyStr ''B''), Obj (PyStr ''C''))]\<rparr>],
      columns_info =
        \<lparr>query1 = [''id'', ''name''], query2 = [''id'', ''name''],
         mapped = [''id'', ''name'']\<rparr>\<rparr>"

text \<open>Null keys on both sides.\<close>

definition null_left :: "pyval DataFrame" where
  "null_left = \<lparr>columns = [''id'', ''name''], rows = [[PyNone, PyStr ''A'']]\<rparr>"

definition null_right :: "pyval DataFrame" where
  "null_right = \<lparr>columns = [''id'', ''name''], rows = [[PyNone, PyStr ''A'']]\<rparr>"

text \<open>A mapped column: \<open>name\<close> on the left, \<open>full_name\<close> on the right.\<close>

definition mapped_left :: "pyval DataFrame" where
  "mapped_left = \<lparr>columns = [''id'', ''name''], rows = [[PyInt 1, PyStr ''A'']]\<rparr>"

definition mapped_right :: "pyval DataFrame" where
  "mapped_right = \<lparr>columns = [''id'', ''full_name''], rows = [[PyInt 1, PyStr ''B'']]\<rparr>"

text \<open>One left row matched by 101 right rows.\<close>

definition many_left :: "pyval DataFrame" where
  "many_left = \<lparr>columns = [''id'', ''v''], rows = [[PyInt 1, PyStr ''A'']]\<rparr>"

definition many_right :: "pyval DataFrame" where
  "many_right = \<lparr>columns = [''id'', ''v''],
                 rows = map (\<lambda>n. [PyInt 1, PyInt (int n)]) [0..<101]\<rparr>"

text \<open>\<open>None\<close> against the text \<open>None\<close>.\<close>

definition none_left :: "pyval DataFrame" where
  "none_left = \<lparr>columns = [''id'', ''name''], rows = [[PyInt 1, PyNone]]\<rparr>"

definition none_right :: "pyval DataFrame" where
  "none_right = \<lparr>columns = [''id'', ''name''], rows = [[PyInt 1, PyStr ''None'']]\<rparr>"

definition none_report :: report where
  "none_report =
     \<lparr>summary =
        \<lparr>total_rows_query1 = 1, total_rows_query2 = 1, n_matches = 1,
         n_only_in_query1 = 0, n_only_in_query2 = 0, n_mismatches = 0\<rparr>,
      matches =
        [[(''id'', Obj (PyInt 1)), (''name_query1'', Obj PyNone),
          (''name_query2'', Obj (PyStr ''None'')), (''_merge'', Obj (PyStr ''both''))]],
      only_in_query1 = [],
      only_in_query2 = [],
      mismatches = [],
      columns_info =
        \<lparr>query1 = [''id'', ''name''], query2 = [''id'', ''name''],
         mapped = [''id'', ''name'']\<rparr>\<rparr>"

text \<open>An integer column next to a row of the right frame only, and rows whose keys
  are not in order.\<close>

definition promoted_left :: "pyval DataFrame" where
  "promoted_left = \<lparr>columns = [''id'', ''v''], rows = [[PyInt 1, PyInt 5]]\<rparr>"

definition promoted_right :: "pyval DataFrame" where
  "promoted_right =
     \<lparr>columns = [''id'', ''v''], rows = [[PyInt 1, PyInt 5], [PyInt 2, PyInt 7]]\<rparr>"

definition unordered_left :: "pyval DataFrame" where
  "unordered_left =
     \<lparr>columns = [''id'', ''name''],
      rows = [[PyInt 2, PyStr ''B''], [PyInt 1, PyStr ''A''], [PyInt 7, PyStr ''Z'']]\<rparr>"

definition unordered_right :: "pyval DataFrame" where
  "unordered_right =
     \<lparr>columns = [''id'', ''name''],
      rows = [[PyInt 2, PyStr ''C''], [PyInt 1, PyStr ''D'']]\<rparr>"


section \<open>The outer join\<close>

lemma set_uniques [simp]: "set (uniques xs) = set xs"
  by (simp add: uniques_def)

lemma distinct_uniques [simp]: "distinct (uniques xs)"
  by (simp add: uniques_def)

lemma set_sorted_keys [simp]: "set (sorted_keys ks) = set ks"
  by (simp add: sorted_keys_def)

lemma distinct_sorted_keys [simp]: "distinct (sorted_keys ks)"
  by (simp add: sorted_keys_def)

text \<open>The groups are in the order of the keys.\<close>

lemma sorted_sorted_keys: "sorted (map (map key_rank) (sorted_keys ks))"
  by (simp add: sorted_keys_def)

lemma filter_upt_empty_iff:
  "filter (\<lambda>i. xs ! i = k) [0..<length xs] = [] \<longleftrightarrow> k \<notin> set xs"
  by (auto simp: filter_empty_conv in_set_conv_nth)

lemma set_join_group:
  "set (join_group lk rk k) =
     {(Some i, Some j) |i j. i < length lk \<and> j < length rk \<and> lk ! i = k \<and> rk ! j = k}
     \<union> {(Some i, None) |i. i < length lk \<and> lk ! i = k \<and> k \<notin> set rk}
     \<union> {(None, Some j) |j. j < length rk \<and> rk ! j = k \<and> k \<notin> set lk}"
  unfolding join_group_def Let_def filter_upt_empty_iff
  by (auto simp: in_set_conv_nth)

lemma distinct_concat_map:
  assumes "distinct xs"
    and "\<And>x. x \<in> set xs \<Longrightarrow> distinct (f x)"
    and "\<And>x y. x \<in> set xs \<Longrightarrow> y \<in> set xs \<Longrightarrow> x \<noteq> y \<Longrightarrow> set (f x) \<inter> set (f y) = {}"
  shows "distinct (concat (map f xs))"
  using assms
proof (induction xs)
  case Nil
  then show ?case by simp
next
  case (Cons a xs)
  have "distinct (concat (map f xs))"
    using Cons by simp
  moreover have "distinct (f a)"
    using Cons.prems(2) by simp
  moreover have "set (f a) \<inter> set (f y) = {}" if "y \<in> set xs" for y
    using Cons.prems(1) Cons.prems(3) [of a y] that by auto
  ultimately show ?case by auto
qed

lemma distinct_join_group: "distinct (join_group lk rk k)"
proof -
  let ?rs = "filter (\<lambda>j. rk ! j = k) [0..<length rk]"
  let ?ls = "filter (\<lambda>i. lk ! i = k) [0..<length lk]"
  have "distinct (concat (map (\<lambda>i. map (\<lambda>j. (Some i, Some j)) ?rs) ?ls))"
    by (rule distinct_concat_map) (auto simp: distinct_map inj_on_def)
  then show ?thesis
    unfolding join_group_def Let_def by (auto simp: distinct_map inj_on_def)
qed

lemma join_group_disjoint:
  "k \<noteq> k' \<Longrightarrow> set (join_group lk rk k) \<inter> set (join_group lk rk k') = {}"
  unfolding set_join_group by auto

lemma distinct_full_outer_join: "distinct (full_outer_join lk rk)"
  unfolding full_outer_join_def
  by (rule distinct_concat_map) (auto simp: distinct_join_group join_group_disjoint)

lemma set_full_outer_join:
  "set (full_outer_join lk rk) =
     {(Some i, Some j) |i j. i < length lk \<and> j < length rk \<and> lk ! i = rk ! j}
     \<union> {(Some i, None) |i. i < length lk \<and> lk ! i \<notin> set rk}
     \<union> {(None, Some j) |j. j < length rk \<and> rk ! j \<notin> set lk}"
  unfolding full_outer_join_def
  by (auto simp: set_join_group)

lemma pd_merge_Inr:
  assumes "pd_merge left right on = Inr merged"
  shows "columns merged = merged_columns (columns left) (columns right) on"
    and "rows merged = map (merged_row left right on (join_indexers left right on))
                          (join_indexers left right on)"
    and "check_keys (columns left) (columns right) on = None"
    and "''_merge'' \<notin> set (columns left)" and "''_merge'' \<notin> set (columns right)"
    and "on \<noteq> []"
    and "suffix_dups (columns left)
           (map (suffixed (columns left) (right_kept (columns right) on) ''_query1'')
              (columns left)) = []"
    and "suffix_dups (right_kept (columns right) on)
           (map (suffixed (columns left) (right_kept (columns right) on) ''_query2'')
              (right_kept (columns right) on)) = []"
    and "\<not> list_ex (key_dtype_clash left right) on"
  using assms unfolding pd_merge_def Let_def
  by (auto split: option.splits if_splits)

lemma check_keys_None:
  "check_keys lcols rcols on = None \<Longrightarrow> k \<in> set on \<Longrightarrow>
     k \<in> set lcols \<and> k \<in> set rcols \<and> count_list lcols k = 1 \<and> count_list rcols k = 1"
proof (induction on)
  case Nil
  then show ?case by simp
next
  case (Cons a on)
  have "count_list xs a = 1" if "a \<in> set xs" "\<not> 1 < count_list xs a" for xs :: "label list"
    using that count_list_0_iff [of xs a] by linarith
  with Cons show ?case
    by (auto split: if_splits)
qed

lemma check_keys_missing:
  "\<exists>k \<in> set on. k \<notin> set lcols \<or> k \<notin> set rcols \<Longrightarrow>
     check_keys lcols rcols on = Some ValueError
     \<or> (\<exists>k \<in> set on. (k \<notin> set lcols \<or> k \<notin> set rcols)
            \<and> check_keys lcols rcols on = Some (KeyError k))"
  by (induction on) auto

lemma wf_df_nth: "wf_df df \<Longrightarrow> i < length (rows df) \<Longrightarrow> length (rows df ! i) = length (columns df)"
  by (simp add: wf_df_def list_all_length)

lemma zip_filter_map:
  "length row = length cols \<Longrightarrow>
     zip (filter P cols) (map (\<lambda>cv. f (fst cv) (snd cv)) (filter (\<lambda>cv. P (fst cv)) (zip cols row)))
       = map (\<lambda>cv. (fst cv, f (fst cv) (snd cv))) (filter (\<lambda>cv. P (fst cv)) (zip cols row))"
proof (induction cols arbitrary: row)
  case Nil
  then show ?case by simp
next
  case (Cons c cols)
  then obtain v vs where "row = v # vs" "length vs = length cols"
    by (cases row) auto
  with Cons.IH [of vs] show ?case by simp
qed

lemma length_filter_zip:
  "length row = length cols \<Longrightarrow>
     length (filter (\<lambda>cv. P (fst cv)) (zip cols row)) = length (filter P cols)"
proof (induction cols arbitrary: row)
  case Nil
  then show ?case by simp
next
  case (Cons c cols)
  then obtain v vs where "row = v # vs" "length vs = length cols"
    by (cases row) auto
  with Cons.IH [of vs] show ?case by simp
qed

lemma zip_right_cells:
  "length (rows right ! j) = length (columns right) \<Longrightarrow>
     zip (right_kept (columns right) on) (right_cells right on idx j)
       = map (\<lambda>cv. (fst cv, to_out (right_promoted right idx (fst cv)) (snd cv)))
           (filter (\<lambda>cv. fst cv \<notin> set on) (zip (columns right) (rows right ! j)))"
  unfolding right_kept_def right_cells_def
  using zip_filter_map [of "rows right ! j" "columns right" "\<lambda>c. c \<notin> set on"
      "\<lambda>c v. to_out (right_promoted right idx c) v"]
  by simp

lemma length_right_cells:
  "length (rows right ! j) = length (columns right) \<Longrightarrow>
     length (right_cells right on idx j) = length (right_kept (columns right) on)"
  unfolding right_kept_def right_cells_def
  using length_filter_zip [of "rows right ! j" "columns right" "\<lambda>c. c \<notin> set on"]
  by simp

lemma length_left_cells:
  "length (rows left ! i) = length (columns left) \<Longrightarrow>
     length (left_cells left on idx i) = length (columns left)"
  by (simp add: left_cells_def)

lemma suffixed_not_merge:
  "c \<noteq> ''_merge'' \<Longrightarrow> suffixed lcols rk ''_query1'' c \<noteq> ''_merge''"
  "c \<noteq> ''_merge'' \<Longrightarrow> suffixed lcols rk ''_query2'' c \<noteq> ''_merge''"
proof -
  have "last (c @ ''_query1'') \<noteq> last ''_merge''" "last (c @ ''_query2'') \<noteq> last ''_merge''"
    by simp_all
  then have "c @ ''_query1'' \<noteq> ''_merge''" "c @ ''_query2'' \<noteq> ''_merge''"
    by metis+
  then show "c \<noteq> ''_merge'' \<Longrightarrow> suffixed lcols rk ''_query1'' c \<noteq> ''_merge''"
    "c \<noteq> ''_merge'' \<Longrightarrow> suffixed lcols rk ''_query2'' c \<noteq> ''_merge''"
    by (simp_all add: suffixed_def)
qed

lemma map_of_zip_append3:
  assumes "length A = length a" "length B = length b" "m \<notin> set A" "m \<notin> set B"
  shows "map_of (zip (A @ B @ [m]) (a @ b @ [t])) m = Some t"
proof -
  have *: "map_of (zip A a) m = None" "map_of (zip B b) m = None"
    using assms by simp_all
  show ?thesis
    using assms(1,2) by (simp add: map_add_def *)
qed

lemma both_in_join:
  "(Some i, Some j) \<in> set (join_indexers left right on) \<longleftrightarrow>
     i < length (rows left) \<and> j < length (rows right)
     \<and> key_of (columns left) on (rows left ! i) = key_of (columns right) on (rows right ! j)"
  unfolding join_indexers_def set_full_outer_join by auto

lemma notin_map_nth: "(x \<notin> set (map f ys)) = (\<forall>j < length ys. x \<noteq> f (ys ! j))"
  unfolding set_map image_iff by (metis in_set_conv_nth)

lemma left_in_join:
  "(Some i, None) \<in> set (join_indexers left right on) \<longleftrightarrow>
     i < length (rows left)
     \<and> (\<forall>j < length (rows right).
           key_of (columns left) on (rows left ! i) \<noteq> key_of (columns right) on (rows right ! j))"
  unfolding join_indexers_def set_full_outer_join notin_map_nth by auto

lemma right_in_join:
  "(None, Some j) \<in> set (join_indexers left right on) \<longleftrightarrow>
     j < length (rows right)
     \<and> (\<forall>i < length (rows left).
           key_of (columns left) on (rows left ! i) \<noteq> key_of (columns right) on (rows right ! j))"
  unfolding join_indexers_def set_full_outer_join notin_map_nth by auto

lemma none_notin_join: "(None, None) \<notin> set (join_indexers left right on)"
  unfolding join_indexers_def set_full_outer_join by auto

lemma distinct_join_indexers: "distinct (join_indexers left right on)"
  by (simp add: join_indexers_def distinct_full_outer_join)

lemma in_join_cases:
  assumes "p \<in> set (join_indexers left right on)"
  obtains (both) i j where "p = (Some i, Some j)" "i < length (rows left)" "j < length (rows right)"
    | (left) i where "p = (Some i, None)" "i < length (rows left)"
    | (right) j where "p = (None, Some j)" "j < length (rows right)"
proof (cases p)
  case (Pair a b)
  show ?thesis
  proof (cases a)
    case None
    note a = this
    show ?thesis
    proof (cases b)
      case None
      with a Pair assms none_notin_join show ?thesis by metis
    next
      case (Some j)
      with a Pair assms right_in_join [of j left right on] right show ?thesis by simp
    qed
  next
    case (Some i)
    note a = this
    show ?thesis
    proof (cases b)
      case None
      with a Pair assms left_in_join [of i left right on] left show ?thesis by simp
    next
      case (Some j)
      with a Pair assms both_in_join [of i j left right on] both show ?thesis by simp
    qed
  qed
qed

lemma merged_row_shape:
  assumes "wf_df left" "wf_df right" "p \<in> set (join_indexers left right on)"
  shows "\<exists>a b. merged_row left right on idx p = a @ b @ [Obj (PyStr (indicator p))]
           \<and> length a = length (columns left)
           \<and> length b = length (right_kept (columns right) on)"
  using assms(3)
proof (cases rule: in_join_cases)
  case (both i j)
  have "length (left_cells left on idx i) = length (columns left)"
    "length (right_cells right on idx j) = length (right_kept (columns right) on)"
    using both assms(1,2) by (simp_all add: wf_df_nth length_right_cells length_left_cells)
  then show ?thesis
    unfolding both(1) merged_row.simps indicator.simps by blast
next
  case (left i)
  have "length (left_cells left on idx i) = length (columns left)"
    using left assms(1) by (simp add: wf_df_nth length_left_cells)
  moreover have "length (map (\<lambda>c. Obj NaN) (right_kept (columns right) on))
      = length (right_kept (columns right) on)"
    by simp
  ultimately show ?thesis
    unfolding left(1) merged_row.simps indicator.simps by blast
next
  case (right j)
  have "length (right_cells right on idx j) = length (right_kept (columns right) on)"
    using right assms(2) by (simp add: wf_df_nth length_right_cells)
  moreover have "length (map (\<lambda>c. if c \<in> set on
            then Obj (get_cell (columns right) (rows right ! j) c) else Obj NaN)
         (columns left)) = length (columns left)"
    by simp
  ultimately show ?thesis
    unfolding right(1) merged_row.simps indicator.simps by blast
qed

lemma merge_label_fresh:
  assumes "''_merge'' \<notin> set lcols" "''_merge'' \<notin> set rcols"
  shows "''_merge'' \<notin> set (map (suffixed lcols rk ''_query1'') lcols)"
    and "''_merge'' \<notin> set (map (suffixed lcols rk ''_query2'') (right_kept rcols on))"
proof -
  show "''_merge'' \<notin> set (map (suffixed lcols rk ''_query1'') lcols)"
  proof
    assume "''_merge'' \<in> set (map (suffixed lcols rk ''_query1'') lcols)"
    then obtain c where "c \<in> set lcols" "suffixed lcols rk ''_query1'' c = ''_merge''"
      by auto
    with assms(1) suffixed_not_merge(1) [of c lcols rk] show False by auto
  qed
  show "''_merge'' \<notin> set (map (suffixed lcols rk ''_query2'') (right_kept rcols on))"
  proof
    assume "''_merge'' \<in> set (map (suffixed lcols rk ''_query2'') (right_kept rcols on))"
    then obtain c where "c \<in> set rcols" "suffixed lcols rk ''_query2'' c = ''_merge''"
      by (auto simp: right_kept_def)
    with assms(2) suffixed_not_merge(2) [of c lcols rk] show False by auto
  qed
qed

lemma indicator_lookup:
  assumes "wf_df left" "wf_df right" "p \<in> set (join_indexers left right on)"
    and "''_merge'' \<notin> set (columns left)" "''_merge'' \<notin> set (columns right)"
  shows "map_of (zip (merged_columns (columns left) (columns right) on)
           (merged_row left right on idx p)) ''_merge'' = Some (Obj (PyStr (indicator p)))"
proof -
  obtain a b where row: "merged_row left right on idx p = a @ b @ [Obj (PyStr (indicator p))]"
    and la: "length a = length (columns left)"
    and lb: "length b = length (right_kept (columns right) on)"
    using merged_row_shape [OF assms(1-3)] by blast
  have "map_of (zip (map (suffixed (columns left) (right_kept (columns right) on) ''_query1'') (columns left)
           @ map (suffixed (columns left) (right_kept (columns right) on) ''_query2'') (right_kept (columns right) on)
           @ [''_merge'']) (a @ b @ [Obj (PyStr (indicator p))])) ''_merge''
      = Some (Obj (PyStr (indicator p)))"
    by (rule map_of_zip_append3) (simp_all add: la lb merge_label_fresh [OF assms(4,5)] del: set_map)
  then show ?thesis
    unfolding merged_columns_def Let_def row by simp
qed

lemma indicator_cell:
  assumes "wf_df left" "wf_df right" "p \<in> set (join_indexers left right on)"
    and "''_merge'' \<notin> set (columns left)" "''_merge'' \<notin> set (columns right)"
  shows "out_cell (merged_columns (columns left) (columns right) on)
           (merged_row left right on idx p) ''_merge'' = Obj (PyStr (indicator p))"
  unfolding out_cell_def by (simp add: indicator_lookup [OF assms])

lemma length_merged_row:
  assumes "wf_df left" "wf_df right" "p \<in> set (join_indexers left right on)"
  shows "length (merged_row left right on idx p)
           = length (merged_columns (columns left) (columns right) on)"
proof -
  obtain a b where "merged_row left right on idx p = a @ b @ [Obj (PyStr (indicator p))]"
    "length a = length (columns left)" "length b = length (right_kept (columns right) on)"
    using merged_row_shape [OF assms] by blast
  then show ?thesis
    by (simp add: merged_columns_def Let_def)
qed

lemma select_merge_rows:
  assumes "wf_df left" "wf_df right" "pd_merge left right on = Inr merged"
  shows "rows (select_merge merged tag) =
           map (merged_row left right on (join_indexers left right on))
               (filter (\<lambda>p. indicator p = tag) (join_indexers left right on))"
proof -
  note m = pd_merge_Inr [OF assms(3)]
  have "out_cell (columns merged) (merged_row left right on (join_indexers left right on) p)
          ''_merge'' = Obj (PyStr (indicator p))"
    if "p \<in> set (join_indexers left right on)" for p
    unfolding m(1) using indicator_cell [OF assms(1,2) that m(4,5)] .
  then have "filter (\<lambda>r. out_cell (columns merged) r ''_merge'' = Obj (PyStr tag))
          (map (merged_row left right on (join_indexers left right on))
             (join_indexers left right on))
      = map (merged_row left right on (join_indexers left right on))
          (filter (\<lambda>p. indicator p = tag) (join_indexers left right on))"
    by (simp add: filter_map comp_def cong: filter_cong)
  then show ?thesis
    unfolding select_merge_def by (simp add: m(2))
qed

lemma select_merge_columns: "columns (select_merge merged tag) = columns merged"
  by (simp add: select_merge_def)


section \<open>Cells of a joined row\<close>

lemma map_of_zip_map_inj:
  "inj_on f (set xs) \<Longrightarrow> x \<in> set xs \<Longrightarrow> length xs = length ys \<Longrightarrow>
     map_of (zip (map f xs) ys) (f x) = map_of (zip xs ys) x"
proof (induction xs arbitrary: ys)
  case Nil
  then show ?case by simp
next
  case (Cons a xs)
  then obtain b bs where ys: "ys = b # bs" "length xs = length bs"
    by (cases ys) auto
  show ?case
  proof (cases "x = a")
    case True
    then show ?thesis by (simp add: ys)
  next
    case False
    with Cons.prems have "x \<in> set xs" "f x \<noteq> f a" "inj_on f (set xs)"
      by (auto simp: inj_on_def)
    with Cons.IH [of bs] ys False show ?thesis by simp
  qed
qed

lemma map_of_zip_append:
  "length A = length a \<Longrightarrow>
     map_of (zip (A @ B) (a @ b)) x = (if x \<in> set A then map_of (zip A a) x else map_of (zip B b) x)"
proof (cases "x \<in> set A")
  case True
  assume l: "length A = length a"
  then obtain v where "map_of (zip A a) x = Some v"
    using True map_of_zip_is_None [OF l, of x] by (cases "map_of (zip A a) x") auto
  then show ?thesis
    using True l by (simp add: map_add_def)
next
  case False
  assume l: "length A = length a"
  then have n: "map_of (zip A a) x = None"
    using False by simp
  show ?thesis
    using False l by (simp add: map_add_def n)
qed

lemma map_of_filter_fst:
  "map_of (filter (\<lambda>cv. P (fst cv)) xs) k = (if P k then map_of xs k else None)"
  by (induction xs) auto

lemma suffixed_key:
  "k \<in> set on \<Longrightarrow> suffixed lcols (right_kept rcols on) s k = k"
  by (simp add: suffixed_def right_kept_def)

lemma suffixed_shared:
  "c \<in> set lcols \<Longrightarrow> c \<in> set rcols \<Longrightarrow> c \<notin> set on \<Longrightarrow>
     suffixed lcols (right_kept rcols on) s c = c @ s"
  by (simp add: suffixed_def right_kept_def)


lemma merged_left_lookup:
  assumes d: "distinct (merged_columns lcols rcols on)"
    and la: "length a = length lcols" and c: "c \<in> set lcols"
  shows "map_of (zip (merged_columns lcols rcols on) (a @ rest))
           (suffixed lcols (right_kept rcols on) ''_query1'' c) = map_of (zip lcols a) c"
proof -
  let ?f = "suffixed lcols (right_kept rcols on) ''_query1''"
  have inj: "inj_on ?f (set lcols)"
    using d by (simp add: merged_columns_def Let_def distinct_map)
  have "map_of (zip (merged_columns lcols rcols on) (a @ rest)) (?f c)
      = map_of (zip (map ?f lcols) a) (?f c)"
    unfolding merged_columns_def Let_def using c la
    by (subst map_of_zip_append) simp_all
  also have "\<dots> = map_of (zip lcols a) c"
    using inj c la by (simp add: map_of_zip_map_inj)
  finally show ?thesis .
qed

lemma merged_right_lookup:
  assumes d: "distinct (merged_columns lcols rcols on)"
    and la: "length a = length lcols" and lb: "length b = length (right_kept rcols on)"
    and c: "c \<in> set rcols" "c \<notin> set on"
  shows "map_of (zip (merged_columns lcols rcols on) (a @ b @ t))
           (suffixed lcols (right_kept rcols on) ''_query2'' c)
         = map_of (zip (right_kept rcols on) b) c"
proof -
  let ?rk = "right_kept rcols on"
  let ?f = "suffixed lcols ?rk ''_query1''"
  let ?g = "suffixed lcols ?rk ''_query2''"
  have crk: "c \<in> set ?rk"
    using c by (simp add: right_kept_def)
  have inj: "inj_on ?g (set ?rk)"
    using d by (simp add: merged_columns_def Let_def distinct_map)
  have "set (map ?f lcols) \<inter> set (map ?g ?rk) = {}"
    using d by (auto simp: merged_columns_def Let_def)
  then have notin: "?g c \<notin> set (map ?f lcols)"
    using crk by auto
  have "map_of (zip (merged_columns lcols rcols on) (a @ b @ t)) (?g c)
      = map_of (zip (map ?g ?rk @ [''_merge'']) (b @ t)) (?g c)"
    unfolding merged_columns_def Let_def using notin la
    by (subst map_of_zip_append) simp_all
  also have "\<dots> = map_of (zip (map ?g ?rk) b) (?g c)"
    using crk lb by (subst map_of_zip_append) simp_all
  also have "\<dots> = map_of (zip ?rk b) c"
    using inj crk lb by (simp add: map_of_zip_map_inj)
  finally show ?thesis .
qed

lemma map_of_map_keyed:
  "map_of (map (\<lambda>cv. (fst cv, g (fst cv) (snd cv))) kvs) c = map_option (g c) (map_of kvs c)"
  by (induction kvs) auto

lemma map_of_zip_get_cell:
  "c \<in> set cols \<Longrightarrow> length row = length cols \<Longrightarrow>
     map_of (zip cols row) c = Some (get_cell cols row c)"
  unfolding get_cell_def
  by (cases "map_of (zip cols row) c") (simp_all add: map_of_zip_is_None [of cols row c])

lemma to_out_False [simp]: "to_out False v = Obj v"
  by (cases v) simp_all

lemma to_out_not_int: "\<not> is_int v \<Longrightarrow> to_out b v = Obj v"
  by (cases v) simp_all

lemma out_plain_to_out [simp]: "out_plain (to_out b v) = v"
  by (cases v) simp_all

lemma update_fresh: "c \<notin> fst ` set d \<Longrightarrow> AList.update c v d = d @ [(c, v)]"
  by (induction d) auto

lemma foldl_update_distinct:
  "distinct cs \<Longrightarrow> set cs \<inter> fst ` set d = {} \<Longrightarrow>
     foldl (\<lambda>d c. if P c then AList.update c (f c) d else d) d cs
       = d @ map (\<lambda>c. (c, f c)) (filter P cs)"
proof (induction cs arbitrary: d)
  case Nil
  then show ?case by simp
next
  case (Cons a cs)
  show ?case
  proof (cases "P a")
    case True
    have fresh: "a \<notin> fst ` set d"
      using Cons.prems(2) by auto
    have "set cs \<inter> fst ` set (d @ [(a, f a)]) = {}"
      using Cons.prems by auto
    with Cons.IH [of "d @ [(a, f a)]"] Cons.prems(1) True fresh show ?thesis
      by (simp add: update_fresh)
  next
    case False
    with Cons.IH [of d] Cons.prems show ?thesis by auto
  qed
qed

lemma foldl_cong_set:
  "(\<And>d x. x \<in> set xs \<Longrightarrow> f d x = g d x) \<Longrightarrow> foldl f d xs = foldl g d xs"
  by (induction xs arbitrary: d) auto

lemma py_dict_distinct: "distinct (map fst kvs) \<Longrightarrow> py_dict kvs = kvs"
proof -
  assume d: "distinct (map fst kvs)"
  have "foldl (\<lambda>d kv. AList.update (fst kv) (snd kv) d) acc kvs = acc @ kvs"
    if "distinct (map fst kvs)" "fst ` set kvs \<inter> fst ` set acc = {}" for acc
    using that
  proof (induction kvs arbitrary: acc)
    case Nil
    then show ?case by simp
  next
    case (Cons kv kvs)
    have fresh: "fst kv \<notin> fst ` set acc"
      using Cons.prems(2) by auto
    have "fst ` set kvs \<inter> fst ` set (acc @ [kv]) = {}"
      using Cons.prems by auto
    with Cons.IH [of "acc @ [kv]"] Cons.prems(1) fresh show ?case
      by (simp add: update_fresh)
  qed
  from this [of "[]"] d show ?thesis
    by (simp add: py_dict_def)
qed

lemma row_mismatches_eq:
  assumes "distinct common"
    and "\<And>c. c \<in> set common \<Longrightarrow> c \<notin> set keys \<Longrightarrow> out_cell cols row (c @ ''_query1'') = v1 c"
    and "\<And>c. c \<in> set common \<Longrightarrow> c \<notin> set keys \<Longrightarrow> out_cell cols row (c @ ''_query2'') = v2 c"
  shows "row_mismatches cols common keys row
           = map (\<lambda>c. (c, v1 c, v2 c))
               (filter (\<lambda>c. c \<notin> set keys \<and> out_str (v1 c) \<noteq> out_str (v2 c)) common)"
proof -
  have "row_mismatches cols common keys row
      = foldl (\<lambda>d c. if c \<notin> set keys \<and> out_str (v1 c) \<noteq> out_str (v2 c)
                       then AList.update c (v1 c, v2 c) d else d) [] common"
    unfolding row_mismatches_def
    by (rule foldl_cong_set) (simp add: Let_def assms(2,3))
  also have "\<dots> = [] @ map (\<lambda>c. (c, v1 c, v2 c))
               (filter (\<lambda>c. c \<notin> set keys \<and> out_str (v1 c) \<noteq> out_str (v2 c)) common)"
    by (rule foldl_update_distinct) (simp_all add: assms(1))
  finally show ?thesis by simp
qed


lemma both_row_cells:
  assumes wf: "wf_df left" "wf_df right"
    and d: "distinct (merged_columns (columns left) (columns right) on)"
    and ij: "i < length (rows left)" "j < length (rows right)"
  shows "k \<in> set on \<Longrightarrow> k \<in> set (columns left) \<Longrightarrow>
           out_cell (merged_columns (columns left) (columns right) on)
             (merged_row left right on idx (Some i, Some j)) k = Obj (cell left i k)"
    and "c \<in> set (columns left) \<Longrightarrow> c \<in> set (columns right) \<Longrightarrow> c \<notin> set on \<Longrightarrow>
           out_cell (merged_columns (columns left) (columns right) on)
             (merged_row left right on idx (Some i, Some j)) (c @ ''_query1'')
           = to_out (left_promoted left on idx c) (cell left i c)"
    and "c \<in> set (columns left) \<Longrightarrow> c \<in> set (columns right) \<Longrightarrow> c \<notin> set on \<Longrightarrow>
           out_cell (merged_columns (columns left) (columns right) on)
             (merged_row left right on idx (Some i, Some j)) (c @ ''_query2'')
           = to_out (right_promoted right idx c) (cell right j c)"
proof -
  have la: "length (rows left ! i) = length (columns left)"
    and lr: "length (rows right ! j) = length (columns right)"
    using wf ij by (simp_all add: wf_df_nth)
  have la': "length (left_cells left on idx i) = length (columns left)"
    and lb': "length (right_cells right on idx j) = length (right_kept (columns right) on)"
    using la lr by (simp_all add: length_left_cells length_right_cells)
  have left: "map_of (zip (columns left) (left_cells left on idx i)) c
      = Some (to_out (left_promoted left on idx c) (cell left i c))"
    if "c \<in> set (columns left)" for c
  proof -
    have "zip (columns left) (left_cells left on idx i)
        = map (\<lambda>cv. (fst cv, to_out (left_promoted left on idx (fst cv)) (snd cv)))
            (zip (columns left) (rows left ! i))"
      unfolding left_cells_def using la
      by (simp add: zip_map2 zip_same_conv_map map_fst_zip case_prod_beta
            list_eq_iff_nth_eq)
    then show ?thesis
      using map_of_zip_get_cell [OF that la]
        map_of_map_keyed [of "\<lambda>c v. to_out (left_promoted left on idx c) v"
          "zip (columns left) (rows left ! i)" c]
      by (simp add: cell_def)
  qed
  have right: "map_of (zip (right_kept (columns right) on) (right_cells right on idx j)) c
      = Some (to_out (right_promoted right idx c) (cell right j c))"
    if "c \<in> set (columns right)" "c \<notin> set on" for c
    using map_of_zip_get_cell [OF that(1) lr] that(2)
      map_of_filter_fst [of "\<lambda>k. k \<notin> set on" "zip (columns right) (rows right ! j)" c]
      map_of_map_keyed [of "\<lambda>c v. to_out (right_promoted right idx c) v"
        "filter (\<lambda>cv. fst cv \<notin> set on) (zip (columns right) (rows right ! j))" c]
    by (simp add: zip_right_cells [OF lr] cell_def)
  show "out_cell (merged_columns (columns left) (columns right) on)
             (merged_row left right on idx (Some i, Some j)) k = Obj (cell left i k)"
    if "k \<in> set on" "k \<in> set (columns left)"
    using merged_left_lookup [OF d la' that(2),
        of "right_cells right on idx j @ [Obj (PyStr ''both'')]"] left [OF that(2)] that(1)
    by (simp add: out_cell_def suffixed_key [OF that(1)] left_promoted_def)
  show "out_cell (merged_columns (columns left) (columns right) on)
             (merged_row left right on idx (Some i, Some j)) (c @ ''_query1'')
           = to_out (left_promoted left on idx c) (cell left i c)"
    if "c \<in> set (columns left)" "c \<in> set (columns right)" "c \<notin> set on"
    using merged_left_lookup [OF d la' that(1),
        of "right_cells right on idx j @ [Obj (PyStr ''both'')]"] left [OF that(1)]
    by (simp add: out_cell_def suffixed_shared [OF that])
  show "out_cell (merged_columns (columns left) (columns right) on)
             (merged_row left right on idx (Some i, Some j)) (c @ ''_query2'')
           = to_out (right_promoted right idx c) (cell right j c)"
    if "c \<in> set (columns left)" "c \<in> set (columns right)" "c \<notin> set on"
    using merged_right_lookup [OF d la' lb' that(2,3), of "[Obj (PyStr ''both'')]"]
      right [OF that(2,3)]
    by (simp add: out_cell_def suffixed_shared [OF that])
qed


section \<open>The report in terms of the alignment\<close>

lemma rows_renamed [simp]: "rows (renamed df2 ms) = rows df2"
  by (simp add: renamed_def rename_def)

lemma wf_df_renamed [simp]: "wf_df (renamed df2 ms) = wf_df df2"
  by (simp add: wf_df_def renamed_def rename_def)

lemma compare_queries_Inr:
  assumes "compare_queries df1 df2 ms pks = Inr rep"
  shows "\<exists>merged.
     pd_merge df1 (renamed df2 ms) (keys_used df1 df2 ms pks) = Inr merged
     \<and> rep = \<lparr>summary =
                \<lparr>total_rows_query1 = length (rows df1),
                 total_rows_query2 = length (rows df2),
                 n_matches = length (rows (select_merge merged ''both'')),
                 n_only_in_query1 = length (rows (select_merge merged ''left_only'')),
                 n_only_in_query2 = length (rows (select_merge merged ''right_only'')),
                 n_mismatches = length (find_mismatches (select_merge merged ''both'')
                    (shared_columns df1 df2 ms) (keys_used df1 df2 ms pks))\<rparr>,
              matches = head_records (select_merge merged ''both''),
              only_in_query1 = head_records (select_merge merged ''left_only''),
              only_in_query2 = head_records (select_merge merged ''right_only''),
              mismatches = take 100 (find_mismatches (select_merge merged ''both'')
                    (shared_columns df1 df2 ms) (keys_used df1 df2 ms pks)),
              columns_info =
                \<lparr>query1 = columns df1, query2 = columns df2,
                 mapped = shared_columns df1 df2 ms\<rparr>\<rparr>"
  using assms
  unfolding compare_queries_def keys_used_def shared_columns_def renamed_def Let_def
  by (auto split: sum.splits)

lemma head_records_eq:
  "head_records df = map (\<lambda>r. py_dict (zip (columns df) r)) (take 100 (rows df))"
  by (simp add: head_records_def)



lemma distinct_merged_left:
  "distinct (merged_columns lcols rcols on) \<Longrightarrow> distinct lcols"
  unfolding merged_columns_def Let_def by (auto simp: distinct_map)


lemma row_mismatches_both:
  assumes wf: "wf_df left" "wf_df right"
    and d: "distinct (merged_columns (columns left) (columns right) on)"
    and r: "i < length (rows left)" "j < length (rows right)"
  shows "row_mismatches (merged_columns (columns left) (columns right) on)
           (common_columns left right) on (merged_row left right on idx (Some i, Some j))
         = map (\<lambda>c. (c, to_out (left_promoted left on idx c) (cell left i c),
                        to_out (right_promoted right idx c) (cell right j c)))
            (filter (\<lambda>c. c \<notin> set on
                 \<and> out_str (to_out (left_promoted left on idx c) (cell left i c))
                   \<noteq> out_str (to_out (right_promoted right idx c) (cell right j c)))
               (common_columns left right))"
proof -
  have dc: "distinct (common_columns left right)"
    using distinct_merged_left [OF d] by (simp add: common_columns_def)
  have cm: "c \<in> set (columns left) \<and> c \<in> set (columns right)"
    if "c \<in> set (common_columns left right)" for c
    using that by (simp add: common_columns_def)
  note cells = both_row_cells [OF wf d r, where idx = idx]
  show ?thesis
    by (rule row_mismatches_eq [OF dc]) (use cells(2,3) cm in blast)+
qed




section \<open>Runs of the program\<close>

lemma example_run:
  "compare_queries example_left example_right [] [''id''] = Inr example_report"
  by code_simp

lemma example_wf: "wf_df example_left" "wf_df example_right"
  by code_simp+

lemma example_labels_unique: "labels_unique example_left example_right [] [''id'']"
  by code_simp

lemma none_run: "compare_queries none_left none_right [] [''id''] = Inr none_report"
  by code_simp

text \<open>The join sorts by key: the rows with \<open>id = 1\<close> come before those with \<open>id = 2\<close>,
  whatever the order of the inputs.\<close>

lemma unordered_run:
  "map_sum id mismatches (compare_queries unordered_left unordered_right [] [''id''])
     = Inr [\<lparr>key = [(''id'', Obj (PyInt 1))],
             differences = [(''name'', Obj (PyStr ''A''), Obj (PyStr ''D''))]\<rparr>,
            \<lparr>key = [(''id'', Obj (PyInt 2))],
             differences = [(''name'', Obj (PyStr ''B''), Obj (PyStr ''C''))]\<rparr>]"
  by code_simp

text \<open>The join promotes: next to a row of the right frame only, the \<open>5\<close> of the left
  integer column is read back as \<open>5.0\<close> and differs from the \<open>5\<close> of the right column.\<close>

lemma promoted_run:
  "map_sum id mismatches (compare_queries promoted_left promoted_right [] [''id''])
     = Inr [\<lparr>key = [(''id'', Obj (PyInt 1))],
             differences = [(''v'', PyFloat 5, Obj (PyInt 5))]\<rparr>]"
  by code_simp

text \<open>An integer key against a key of strings is refused.\<close>

lemma key_dtype_run:
  "compare_queries example_left
     \<lparr>columns = [''id'', ''name''], rows = [[PyStr ''1'', PyStr ''A'']]\<rparr> [] [''id'']
     = Inl ValueError"
  by code_simp

section \<open>Categories, counts and lists\<close>

lemma count_list_distinct: "distinct xs \<Longrightarrow> count_list xs x = (if x \<in> set xs then 1 else 0)"
  by (induction xs) auto

lemma alignment_counts:
  fixes df1 df2 ms pks
  defines "A \<equiv> alignment df1 df2 ms pks"
    and "r \<equiv> renamed df2 ms" and "ks \<equiv> keys_used df1 df2 ms pks"
  shows "count_list A (Some i, Some j) =
           (if i < length (rows df1) \<and> j < length (rows df2) \<and> same_key df1 r ks i j then 1 else 0)"
    and "count_list A (Some i, None) =
           (if i < length (rows df1) \<and> (\<forall>j < length (rows df2). \<not> same_key df1 r ks i j) then 1 else 0)"
    and "count_list A (None, Some j) =
           (if j < length (rows df2) \<and> (\<forall>i < length (rows df1). \<not> same_key df1 r ks i j) then 1 else 0)"
    and "count_list A (None, None) = 0"
  unfolding A_def r_def ks_def alignment_def same_key_def
  using both_in_join [of i j df1 "renamed df2 ms" "keys_used df1 df2 ms pks"]
    left_in_join [of i df1 "renamed df2 ms" "keys_used df1 df2 ms pks"]
    right_in_join [of j df1 "renamed df2 ms" "keys_used df1 df2 ms pks"]
    none_notin_join [of df1 "renamed df2 ms" "keys_used df1 df2 ms pks"]
  by (simp_all add: count_list_distinct distinct_join_indexers)

lemma find_mismatches_cong:
  "columns a = columns b \<Longrightarrow> rows a = rows b \<Longrightarrow>
     find_mismatches a common keys = find_mismatches b common keys"
  by (simp add: find_mismatches_def Let_def cong: if_cong)

lemma all_mismatches_merged:
  assumes "wf_df df1" "wf_df df2"
    and m: "pd_merge df1 (renamed df2 ms) (keys_used df1 df2 ms pks) = Inr merged"
  shows "find_mismatches (select_merge merged ''both'')
           (shared_columns df1 df2 ms) (keys_used df1 df2 ms pks)
         = all_mismatches df1 df2 ms pks"
proof -
  have wf: "wf_df df1" "wf_df (renamed df2 ms)"
    using assms(1,2) by simp_all
  show ?thesis
    unfolding all_mismatches_def
    by (rule find_mismatches_cong)
       (simp_all add: matches_frame_def select_merge_columns select_merge_rows [OF wf m]
          pd_merge_Inr(1) [OF m] joined_columns_def joined_row_def alignment_def)
qed

lemma report_lists:
  assumes "compare_queries df1 df2 ms pks = Inr rep" "wf_df df1" "wf_df df2"
  shows "matches rep = take 100 (category_records df1 df2 ms pks ''both'')"
    and "only_in_query1 rep = take 100 (category_records df1 df2 ms pks ''left_only'')"
    and "only_in_query2 rep = take 100 (category_records df1 df2 ms pks ''right_only'')"
    and "mismatches rep = take 100 (all_mismatches df1 df2 ms pks)"
    and "n_matches (summary rep) = length (category_records df1 df2 ms pks ''both'')"
    and "n_only_in_query1 (summary rep) = length (category_records df1 df2 ms pks ''left_only'')"
    and "n_only_in_query2 (summary rep) = length (category_records df1 df2 ms pks ''right_only'')"
    and "n_mismatches (summary rep) = length (all_mismatches df1 df2 ms pks)"
proof -
  obtain merged where m: "pd_merge df1 (renamed df2 ms) (keys_used df1 df2 ms pks) = Inr merged"
    and rep: "n_matches (summary rep) = length (rows (select_merge merged ''both''))"
      "n_only_in_query1 (summary rep) = length (rows (select_merge merged ''left_only''))"
      "n_only_in_query2 (summary rep) = length (rows (select_merge merged ''right_only''))"
      "matches rep = head_records (select_merge merged ''both'')"
      "only_in_query1 rep = head_records (select_merge merged ''left_only'')"
      "only_in_query2 rep = head_records (select_merge merged ''right_only'')"
      "mismatches rep = take 100 (find_mismatches (select_merge merged ''both'')
                    (shared_columns df1 df2 ms) (keys_used df1 df2 ms pks))"
      "n_mismatches (summary rep) = length (find_mismatches (select_merge merged ''both'')
                    (shared_columns df1 df2 ms) (keys_used df1 df2 ms pks))"
    using compare_queries_Inr [OF assms(1)] by force
  have wf: "wf_df df1" "wf_df (renamed df2 ms)"
    using assms(2,3) by simp_all
  note sel = select_merge_rows [OF wf m]
  note cols = pd_merge_Inr(1) [OF m]
  show "n_matches (summary rep) = length (category_records df1 df2 ms pks ''both'')"
    "n_only_in_query1 (summary rep) = length (category_records df1 df2 ms pks ''left_only'')"
    "n_only_in_query2 (summary rep) = length (category_records df1 df2 ms pks ''right_only'')"
    unfolding rep sel category_records_def alignment_def by simp_all
  show "matches rep = take 100 (category_records df1 df2 ms pks ''both'')"
    "only_in_query1 rep = take 100 (category_records df1 df2 ms pks ''left_only'')"
    "only_in_query2 rep = take 100 (category_records df1 df2 ms pks ''right_only'')"
    unfolding rep head_records_eq select_merge_columns sel cols category_records_def
      joined_columns_def joined_row_def alignment_def
    by (simp_all add: take_map comp_def)
  show "mismatches rep = take 100 (all_mismatches df1 df2 ms pks)"
    "n_mismatches (summary rep) = length (all_mismatches df1 df2 ms pks)"
    using rep(7,8) all_mismatches_merged [OF assms(2,3) m] by simp_all
qed

lemma category_sizes:
  assumes "compare_queries df1 df2 ms pks = Inr rep" "wf_df df1" "wf_df df2"
  shows "n_matches (summary rep)
           = length (filter (\<lambda>p. indicator p = ''both'') (alignment df1 df2 ms pks))"
    and "n_only_in_query1 (summary rep)
           = length (filter (\<lambda>p. indicator p = ''left_only'') (alignment df1 df2 ms pks))"
    and "n_only_in_query2 (summary rep)
           = length (filter (\<lambda>p. indicator p = ''right_only'') (alignment df1 df2 ms pks))"
  using report_lists(5-7) [OF assms] by (simp_all add: category_records_def)

lemma card_both:
  "length (filter (\<lambda>p. indicator p = ''both'') (join_indexers left right on))
     = card {(i, j). i < length (rows left) \<and> j < length (rows right)
               \<and> same_key left right on i j}"
proof -
  let ?A = "join_indexers left right on"
  let ?S = "{(i, j). i < length (rows left) \<and> j < length (rows right) \<and> same_key left right on i j}"
  have "{x. indicator x = ''both''} \<inter> set ?A = (\<lambda>ij. (Some (fst ij), Some (snd ij))) ` ?S"
  proof (intro set_eqI iffI)
    fix x assume "x \<in> {x. indicator x = ''both''} \<inter> set ?A"
    then have x: "x \<in> set ?A" "indicator x = ''both''" by simp_all
    from x(1) show "x \<in> (\<lambda>ij. (Some (fst ij), Some (snd ij))) ` ?S"
    proof (cases rule: in_join_cases)
      case (both i j)
      then have "(i, j) \<in> ?S"
        using x(1) by (simp add: both_in_join same_key_def)
      then show ?thesis
        unfolding both(1) by (rule rev_image_eqI) simp
    next
      case (left i)
      with x(2) show ?thesis by simp
    next
      case (right j)
      with x(2) show ?thesis by simp
    qed
  next
    fix x assume "x \<in> (\<lambda>ij. (Some (fst ij), Some (snd ij))) ` ?S"
    then show "x \<in> {x. indicator x = ''both''} \<inter> set ?A"
      by (auto simp: both_in_join same_key_def)
  qed
  moreover have "inj_on (\<lambda>ij. (Some (fst ij), Some (snd ij))) ?S"
    by (auto simp: inj_on_def)
  ultimately show ?thesis
    by (simp add: distinct_length_filter distinct_join_indexers card_image)
qed

lemma card_left_only:
  "length (filter (\<lambda>p. indicator p = ''left_only'') (join_indexers left right on))
     = card {i. i < length (rows left)
               \<and> (\<forall>j < length (rows right). \<not> same_key left right on i j)}"
proof -
  let ?A = "join_indexers left right on"
  let ?S = "{i. i < length (rows left) \<and> (\<forall>j < length (rows right). \<not> same_key left right on i j)}"
  have "{x. indicator x = ''left_only''} \<inter> set ?A = (\<lambda>i. (Some i, None :: nat option)) ` ?S"
  proof (intro set_eqI iffI)
    fix x assume "x \<in> {x. indicator x = ''left_only''} \<inter> set ?A"
    then have x: "x \<in> set ?A" "indicator x = ''left_only''" by simp_all
    from x(1) show "x \<in> (\<lambda>i. (Some i, None :: nat option)) ` ?S"
    proof (cases rule: in_join_cases)
      case (both i j)
      with x(2) show ?thesis by simp
    next
      case (left i)
      then have "i \<in> ?S"
        using x(1) by (simp add: left_in_join same_key_def)
      then show ?thesis
        unfolding left(1) by (rule rev_image_eqI) simp
    next
      case (right j)
      with x(2) show ?thesis by simp
    qed
  next
    fix x assume "x \<in> (\<lambda>i. (Some i, None :: nat option)) ` ?S"
    then show "x \<in> {x. indicator x = ''left_only''} \<inter> set ?A"
      by (auto simp: left_in_join same_key_def)
  qed
  moreover have "inj_on (\<lambda>i. (Some i, None :: nat option)) ?S"
    by (auto simp: inj_on_def)
  ultimately show ?thesis
    by (simp add: distinct_length_filter distinct_join_indexers card_image)
qed

lemma card_right_only:
  "length (filter (\<lambda>p. indicator p = ''right_only'') (join_indexers left right on))
     = card {j. j < length (rows right)
               \<and> (\<forall>i < length (rows left). \<not> same_key left right on i j)}"
proof -
  let ?A = "join_indexers left right on"
  let ?S = "{j. j < length (rows right) \<and> (\<forall>i < length (rows left). \<not> same_key left right on i j)}"
  have "{x. indicator x = ''right_only''} \<inter> set ?A = (\<lambda>j. (None :: nat option, Some j)) ` ?S"
  proof (intro set_eqI iffI)
    fix x assume "x \<in> {x. indicator x = ''right_only''} \<inter> set ?A"
    then have x: "x \<in> set ?A" "indicator x = ''right_only''" by simp_all
    from x(1) show "x \<in> (\<lambda>j. (None :: nat option, Some j)) ` ?S"
    proof (cases rule: in_join_cases)
      case (both i j)
      with x(2) show ?thesis by simp
    next
      case (left i)
      with x(2) show ?thesis by simp
    next
      case (right j)
      then have "j \<in> ?S"
        using x(1) by (simp add: right_in_join same_key_def)
      then show ?thesis
        unfolding right(1) by (rule rev_image_eqI) simp
    qed
  next
    fix x assume "x \<in> (\<lambda>j. (None :: nat option, Some j)) ` ?S"
    then show "x \<in> {x. indicator x = ''right_only''} \<inter> set ?A"
      by (auto simp: right_in_join same_key_def)
  qed
  moreover have "inj_on (\<lambda>j. (None :: nat option, Some j)) ?S"
    by (auto simp: inj_on_def)
  ultimately show ?thesis
    by (simp add: distinct_length_filter distinct_join_indexers card_image)
qed



section \<open>The example scenario\<close>

text \<open>
  C1, the code at the example inputs, with \<open>joinKeys = [id]\<close> and an empty mapping: a
  failing input. The summary has \<open>total_rows_query1 = 2\<close>, \<open>total_rows_query2 = 3\<close>,
  \<open>mismatches = 1\<close>, \<open>only_in_query1 = 0\<close> and \<open>only_in_query2 = 1\<close>, but \<open>matches = 2\<close>:
  the count is \<open>len(merged[merged['_merge'] == 'both'])\<close> and takes every row joined on
  both sides, the mismatching row \<open>id = 2\<close> included, while the report page shows this
  count as \<open>Matching Rows\<close>, \<open>Perfect matches\<close>, of which the example has one. There is
  exactly one mismatch, with key \<open>{id: 2}\<close> and differences
  \<open>{name: {query1: "B", query2: "C"}}\<close>, and one right-only row, which the report gives
  in the schema of the joined frame:
  \<open>{id: 3, name_query1: NaN, name_query2: "D", _merge: "right_only"}\<close>.
\<close>

theorem example_scenario:
  "map_sum id summary (compare_queries example_left example_right [] [''id'']) =
     Inr \<lparr>total_rows_query1 = 2, total_rows_query2 = 3, n_matches = 2,
          n_only_in_query1 = 0, n_only_in_query2 = 1, n_mismatches = 1\<rparr>
   \<and> map_sum id mismatches (compare_queries example_left example_right [] [''id'']) =
     Inr [\<lparr>key = [(''id'', Obj (PyInt 2))],
           differences = [(''name'', Obj (PyStr ''B''), Obj (PyStr ''C''))]\<rparr>]
   \<and> map_sum id only_in_query2 (compare_queries example_left example_right [] [''id'']) =
     Inr [[(''id'', Obj (PyInt 3)), (''name_query1'', Obj NaN),
           (''name_query2'', Obj (PyStr ''D'')), (''_merge'', Obj (PyStr ''right_only''))]]
   \<and> map_sum id only_in_query1 (compare_queries example_left example_right [] [''id'']) =
     Inr []"
  by (simp add: example_run example_report_def)

section \<open>Null keys\<close>

lemma key_code_eq_iff: "key_code a = key_code b \<longleftrightarrow> a = b \<or> (isna a \<and> isna b)"
  by (cases a; cases b) simp_all

lemma key_of_eq_iff:
  "key_of cols keys row = key_of cols' keys row' \<longleftrightarrow>
     (\<forall>k \<in> set keys. get_cell cols row k = get_cell cols' row' k
        \<or> (isna (get_cell cols row k) \<and> isna (get_cell cols' row' k)))"
  unfolding key_of_def by (simp add: key_code_eq_iff)

text \<open>
  C8 (as the code behaves). Two rows are a matched pair iff at every key column their
  two values are equal or are both missing: missing key values (\<open>None\<close>, \<open>NaN\<close>) are
  equal to each other, as \<open>pd.merge\<close> documents.
\<close>

theorem null_keys_match:
  "(Some i, Some j) \<in> set (alignment df1 df2 ms pks) \<longleftrightarrow>
     i < length (rows df1) \<and> j < length (rows df2)
     \<and> (\<forall>k \<in> set (keys_used df1 df2 ms pks).
           cell df1 i k = cell (renamed df2 ms) j k
           \<or> (isna (cell df1 i k) \<and> isna (cell (renamed df2 ms) j k)))"
  unfolding alignment_def both_in_join key_of_eq_iff cell_def by simp

theorem null_keys_match_witness:
  "keys_used null_left null_right [] [''id''] = [''id'']
   \<and> isna (cell null_left 0 ''id'') \<and> isna (cell (renamed null_right []) 0 ''id'')
   \<and> (Some 0, Some 0) \<in> set (alignment null_left null_right [] [''id''])"
proof -
  have k: "keys_used null_left null_right [] [''id''] = [''id'']"
    by code_simp
  have c: "cell null_left 0 ''id'' = PyNone" "cell (renamed null_right []) 0 ''id'' = PyNone"
    by code_simp+
  have l: "length (rows null_left) = 1" "length (rows null_right) = 1"
    by (simp_all add: null_left_def null_right_def)
  show ?thesis
    using null_keys_match [of 0 0 null_left null_right "[]" "[''id'']"]
    by (simp add: k c l)
qed

text \<open>
  C8 as stated fails: a left row and a right row that both have \<open>None\<close> in the key
  column are one matched pair, and neither is one-sided.
\<close>

theorem null_keys_counterexample:
  "map_sum id summary (compare_queries null_left null_right [] [''id'']) =
     Inr \<lparr>total_rows_query1 = 1, total_rows_query2 = 1, n_matches = 1,
          n_only_in_query1 = 0, n_only_in_query2 = 0, n_mismatches = 0\<rparr>"
  by code_simp

section \<open>A join key that is not a column\<close>

lemma compare_queries_error:
  "pd_merge df1 (renamed df2 ms) (keys_used df1 df2 ms pks) = Inl e \<Longrightarrow>
     compare_queries df1 df2 ms pks = Inl e"
  unfolding compare_queries_def keys_used_def shared_columns_def renamed_def Let_def
  by simp

lemma pd_merge_key_error:
  "check_keys (columns left) (columns right) on = Some e \<Longrightarrow> pd_merge left right on = Inl e"
  unfolding pd_merge_def Let_def by simp

lemma keys_used_primary: "pks \<noteq> [] \<Longrightarrow> keys_used df1 df2 ms pks = pks"
  by (simp add: keys_used_def join_keys_def)

lemma columns_renamed_rows: "columns (renamed (df2\<lparr>rows := r\<rparr>) ms) = columns (renamed df2 ms)"
  by (simp add: renamed_def rename_def)

text \<open>
  C6. If a join key is not a column of the left frame or of the renamed right frame, the
  call fails and returns no report: with the \<open>KeyError\<close> of a key that is missing, or
  with the \<open>ValueError\<close> of a key label before it that is not unique. The failure comes
  before any row is looked at: the result is the same whatever the rows are.
\<close>

theorem missing_join_key_fails:
  assumes "\<exists>k \<in> set pks. k \<notin> set (columns df1) \<or> k \<notin> set (columns (renamed df2 ms))"
  shows "(compare_queries df1 df2 ms pks = Inl ValueError
          \<or> (\<exists>k \<in> set pks. (k \<notin> set (columns df1) \<or> k \<notin> set (columns (renamed df2 ms)))
                \<and> compare_queries df1 df2 ms pks = Inl (KeyError k)))
       \<and> (\<forall>r1 r2. compare_queries (df1\<lparr>rows := r1\<rparr>) (df2\<lparr>rows := r2\<rparr>) ms pks
                    = compare_queries df1 df2 ms pks)"
proof -
  have ne: "pks \<noteq> []"
    using assms by auto
  have fail: "\<exists>e. check_keys (columns a) (columns (renamed b ms)) pks = Some e
           \<and> (e = ValueError \<or> (\<exists>k \<in> set pks. (k \<notin> set (columns a) \<or> k \<notin> set (columns (renamed b ms))) \<and> e = KeyError k))"
    if "columns a = columns df1" "columns (renamed b ms) = columns (renamed df2 ms)" for a b
    using check_keys_missing [of pks "columns a" "columns (renamed b ms)"] assms that by auto
  have res: "compare_queries a b ms pks = Inl e"
    if "check_keys (columns a) (columns (renamed b ms)) pks = Some e" for a b e
    using that ne by (intro compare_queries_error pd_merge_key_error) (simp add: keys_used_primary)
  obtain e where e: "check_keys (columns df1) (columns (renamed df2 ms)) pks = Some e"
    "e = ValueError \<or> (\<exists>k \<in> set pks. (k \<notin> set (columns df1) \<or> k \<notin> set (columns (renamed df2 ms))) \<and> e = KeyError k)"
    using fail [of df1 df2] by auto
  have "compare_queries (df1\<lparr>rows := r1\<rparr>) (df2\<lparr>rows := r2\<rparr>) ms pks = compare_queries df1 df2 ms pks"
    for r1 r2
    using res [of "df1\<lparr>rows := r1\<rparr>" "df2\<lparr>rows := r2\<rparr>" e] res [OF e(1)] e(1)
    by (simp add: columns_renamed_rows)
  then show ?thesis
    using res [OF e(1)] e(2) by auto
qed

theorem missing_join_key_fails_witness:
  "''code'' \<in> set [''id'', ''code''] \<and> ''code'' \<notin> set (columns example_left)
   \<and> compare_queries example_left example_right [] [''id'', ''code''] = Inl (KeyError ''code'')"
proof -
  have h: "\<exists>k \<in> set [''id'', ''code'']. k \<notin> set (columns example_left)
       \<or> k \<notin> set (columns (renamed example_right []))"
    by (simp add: example_left_def)
  have "compare_queries example_left example_right [] [''id'', ''code''] = Inl (KeyError ''code'')"
    by code_simp
  then show ?thesis
    using missing_join_key_fails [OF h] by (simp add: example_left_def)
qed

section \<open>The mapping\<close>

lemma map_of_foldl_update:
  "map_of (foldl (\<lambda>d m. AList.update (fst m) (snd m) d) d ms) = map_of d ++ map_of (rev ms)"
proof (induction ms arbitrary: d)
  case Nil
  then show ?case by simp
next
  case (Cons m ms)
  have "map_of (AList.update (fst m) (snd m) d) ++ map_of (rev ms)
      = map_of d ++ (map_of [m] ++ map_of (rev ms))"
    by (cases m) (simp add: update_conv' fun_eq_iff map_add_def split: option.splits)
  with Cons.IH [of "AList.update (fst m) (snd m) d"] show ?case
    by simp
qed

lemma map_of_mapping_dict: "map_of (mapping_dict ms) = map_of (rev ms)"
  unfolding mapping_dict_def by (simp add: map_of_foldl_update)

lemma renamed_cong:
  "map_of (rev ms) = map_of (rev ms') \<Longrightarrow> renamed df2 ms = renamed df2 ms'"
  unfolding renamed_def rename_def by (simp add: map_of_mapping_dict)

lemma compare_queries_renamed:
  "renamed df2 ms = renamed df2 ms' \<Longrightarrow>
     compare_queries df1 df2 ms pks = compare_queries df1 df2 ms' pks"
  unfolding compare_queries_def renamed_def by simp

text \<open>
  C7 (as the code behaves). Nothing validates the mapping. When a left name occurs in
  two pairs, the earlier pair is dropped silently: the call is the call without it.
\<close>

theorem mapping_last_pair_wins:
  "compare_queries df1 df2 (ms1 @ (l, r1) # ms2 @ (l, r2) # ms3) pks
     = compare_queries df1 df2 (ms1 @ ms2 @ (l, r2) # ms3) pks"
proof (intro compare_queries_renamed renamed_cong)
  show "map_of (rev (ms1 @ (l, r1) # ms2 @ (l, r2) # ms3)) = map_of (rev (ms1 @ ms2 @ (l, r2) # ms3))"
    by (simp add: fun_eq_iff map_add_def split: option.splits)
qed

text \<open>
  C7 as stated fails: a mapping with a repeated left name, and one with a repeated
  right target, are both accepted, and the example gives its report.
\<close>

theorem invalid_mapping_counterexample:
  "compare_queries example_left example_right [(''name'', ''label''), (''name'', ''name'')] [''id'']
     = Inr example_report
   \<and> compare_queries example_left example_right [(''a'', ''name''), (''b'', ''name'')] [''id'']
     = Inr example_report"
  by code_simp

text \<open>
  C5, the code at a failing input. With the pair \<open>(name, full_name)\<close> the right frame
  keeps its column \<open>full_name\<close>: \<open>rename\<close> is given the dict from left names to right
  names and finds no column called \<open>name\<close>. The only shared column is \<open>id\<close>, and the
  names \<open>A\<close> and \<open>B\<close> are never compared. The dict that renames \<open>full_name\<close> to \<open>name\<close>,
  \<open>reverse_map\<close>, is built and not used.
\<close>

theorem mapping_direction_failing_input:
  "columns (renamed mapped_right [(''name'', ''full_name'')]) = [''id'', ''full_name'']
   \<and> map_sum id (mapped \<circ> columns_info)
        (compare_queries mapped_left mapped_right [(''name'', ''full_name'')] [''id''])
       = Inr [''id'']
   \<and> map_sum id mismatches
        (compare_queries mapped_left mapped_right [(''name'', ''full_name'')] [''id''])
       = Inr []
   \<and> columns (rename mapped_right (reverse_map (mapping_dict [(''name'', ''full_name'')])))
       = [''id'', ''name'']"
  by code_simp



section \<open>Truncation\<close>

text \<open>
  C4. Each of the four lists of the report has at most 100 entries: it is the first 100
  entries of the full list of its category, in the order of the join. Each count of the
  summary is the length of the full list; for the three categories of rows it is also
  the number of pairs of rows with the same key, of left rows and of right rows without
  a partner.
\<close>

theorem preview_truncation:
  assumes "compare_queries df1 df2 ms pks = Inr rep" "wf_df df1" "wf_df df2"
  shows "length (matches rep) \<le> 100 \<and> length (only_in_query1 rep) \<le> 100
       \<and> length (only_in_query2 rep) \<le> 100 \<and> length (mismatches rep) \<le> 100
       \<and> matches rep = take 100 (category_records df1 df2 ms pks ''both'')
       \<and> only_in_query1 rep = take 100 (category_records df1 df2 ms pks ''left_only'')
       \<and> only_in_query2 rep = take 100 (category_records df1 df2 ms pks ''right_only'')
       \<and> mismatches rep = take 100 (all_mismatches df1 df2 ms pks)
       \<and> n_matches (summary rep) = length (category_records df1 df2 ms pks ''both'')
       \<and> n_only_in_query1 (summary rep) = length (category_records df1 df2 ms pks ''left_only'')
       \<and> n_only_in_query2 (summary rep) = length (category_records df1 df2 ms pks ''right_only'')
       \<and> n_mismatches (summary rep) = length (all_mismatches df1 df2 ms pks)
       \<and> n_matches (summary rep) =
           card {(i, j). i < length (rows df1) \<and> j < length (rows df2)
                   \<and> same_key df1 (renamed df2 ms) (keys_used df1 df2 ms pks) i j}
       \<and> n_only_in_query1 (summary rep) =
           card {i. i < length (rows df1)
                   \<and> (\<forall>j < length (rows df2).
                         \<not> same_key df1 (renamed df2 ms) (keys_used df1 df2 ms pks) i j)}
       \<and> n_only_in_query2 (summary rep) =
           card {j. j < length (rows df2)
                   \<and> (\<forall>i < length (rows df1).
                         \<not> same_key df1 (renamed df2 ms) (keys_used df1 df2 ms pks) i j)}"
proof -
  note l = report_lists [OF assms]
  note c = category_sizes(1-3) [OF assms, unfolded alignment_def]
  have "n_matches (summary rep) =
           card {(i, j). i < length (rows df1) \<and> j < length (rows df2)
                   \<and> same_key df1 (renamed df2 ms) (keys_used df1 df2 ms pks) i j}"
    using c(1) card_both [of df1 "renamed df2 ms" "keys_used df1 df2 ms pks"] by simp
  moreover have "n_only_in_query1 (summary rep) =
           card {i. i < length (rows df1)
                   \<and> (\<forall>j < length (rows df2).
                         \<not> same_key df1 (renamed df2 ms) (keys_used df1 df2 ms pks) i j)}"
    using c(2) card_left_only [of df1 "renamed df2 ms" "keys_used df1 df2 ms pks"] by simp
  moreover have "n_only_in_query2 (summary rep) =
           card {j. j < length (rows df2)
                   \<and> (\<forall>i < length (rows df1).
                         \<not> same_key df1 (renamed df2 ms) (keys_used df1 df2 ms pks) i j)}"
    using c(3) card_right_only [of df1 "renamed df2 ms" "keys_used df1 df2 ms pks"] by simp
  moreover have "length (matches rep) \<le> 100" "length (only_in_query1 rep) \<le> 100"
    "length (only_in_query2 rep) \<le> 100" "length (mismatches rep) \<le> 100"
    unfolding l(1-4) by simp_all
  ultimately show ?thesis
    using l by blast
qed

lemma many_run:
  "(case compare_queries many_left many_right [] [''id''] of
      Inl e \<Rightarrow> False
    | Inr r \<Rightarrow> n_mismatches (summary r) = 101 \<and> length (mismatches r) = 100
        \<and> n_matches (summary r) = 101 \<and> length (matches r) = 100
        \<and> \<not> list_ex ((=) \<lparr>key = [(''id'', Obj (PyInt 1))],
                            differences = [(''v'', Obj (PyStr ''A''), Obj (PyInt 100))]\<rparr>) (mismatches r))"
  by code_simp

lemma many_wf: "wf_df many_left" "wf_df many_right"
  by code_simp+

theorem preview_truncation_witness:
  "compare_queries many_left many_right [] [''id'']
     = Inr (projr (compare_queries many_left many_right [] [''id'']))
   \<and> wf_df many_left \<and> wf_df many_right
   \<and> length (matches (projr (compare_queries many_left many_right [] [''id'']))) = 100
   \<and> n_matches (summary (projr (compare_queries many_left many_right [] [''id'']))) = 101
   \<and> length (category_records many_left many_right [] [''id''] ''both'') = 101
   \<and> length (mismatches (projr (compare_queries many_left many_right [] [''id'']))) = 100
   \<and> length (all_mismatches many_left many_right [] [''id'']) = 101"
proof -
  obtain r where r: "compare_queries many_left many_right [] [''id''] = Inr r"
    using many_run by (cases "compare_queries many_left many_right [] [''id'']") simp_all
  have v: "n_mismatches (summary r) = 101" "length (mismatches r) = 100"
    "n_matches (summary r) = 101" "length (matches r) = 100"
    using many_run by (simp_all add: r)
  show ?thesis
    using preview_truncation [OF r many_wf] v many_wf by (simp add: r)
qed

section \<open>Mismatches\<close>






section \<open>Null against text\<close>

lemma none_facts:
  "wf_df none_left" "wf_df none_right" "labels_unique none_left none_right [] [''id'']"
  "(Some 0, Some 0) \<in> set (alignment none_left none_right [] [''id''])"
  "''name'' \<in> set (shared_columns none_left none_right [])"
  "''name'' \<notin> set (keys_used none_left none_right [] [''id''])"
  "cell none_left 0 ''name'' = PyNone"
  "cell (renamed none_right []) 0 ''name'' = PyStr ''None''"
  by code_simp+

text \<open>
  C9 (as the code behaves). Both cells go through \<open>str\<close>, and \<open>str\<close> of a missing value
  is a text: \<open>None\<close> for \<open>None\<close>, \<open>nan\<close> for \<open>NaN\<close>. For a matched pair and a shared column
  outside the key with a missing value on one side and a text \<open>s\<close> on the other, the
  column is among the differences of the row iff \<open>s\<close> is not that text.
\<close>

theorem null_stringification:
  assumes "compare_queries df1 df2 ms pks = Inr rep" "wf_df df1" "wf_df df2"
    and "labels_unique df1 df2 ms pks"
    and "(Some i, Some j) \<in> set (alignment df1 df2 ms pks)"
    and "c \<in> set (shared_columns df1 df2 ms)" "c \<notin> set (keys_used df1 df2 ms pks)"
    and "isna v"
    and "(cell df1 i c = v \<and> cell (renamed df2 ms) j c = PyStr s)
         \<or> (cell df1 i c = PyStr s \<and> cell (renamed df2 ms) j c = v)"
  shows "joined_row df1 df2 ms pks (Some i, Some j) \<in> set (rows (matches_frame df1 df2 ms pks))
       \<and> ((c \<in> fst ` set (row_mismatches (joined_columns df1 df2 ms pks)
                              (shared_columns df1 df2 ms) (keys_used df1 df2 ms pks)
                              (joined_row df1 df2 ms pks (Some i, Some j))))
            \<longleftrightarrow> s \<noteq> (if v = PyNone then ''None'' else ''nan''))"
proof -
  have wf: "wf_df df1" "wf_df (renamed df2 ms)"
    using assms(2,3) by simp_all
  have d: "distinct (merged_columns (columns df1) (columns (renamed df2 ms))
             (keys_used df1 df2 ms pks))"
    using assms(4) by (simp add: labels_unique_def)
  have r: "i < length (rows df1)" "j < length (rows (renamed df2 ms))"
    using assms(5) by (simp_all add: alignment_def both_in_join)
  have str: "py_str v = (if v = PyNone then ''None'' else ''nan'')"
    using assms(8) by (cases v) simp_all
  have nint: "\<not> is_int v" "\<not> is_int (PyStr s)"
    using assms(8) by (cases v) simp_all
  have "fst ` set (row_mismatches (joined_columns df1 df2 ms pks)
                              (shared_columns df1 df2 ms) (keys_used df1 df2 ms pks)
                              (joined_row df1 df2 ms pks (Some i, Some j)))
      = {c \<in> set (shared_columns df1 df2 ms). c \<notin> set (keys_used df1 df2 ms pks)
           \<and> out_str (to_out (left_promoted df1 (keys_used df1 df2 ms pks)
                                 (alignment df1 df2 ms pks) c) (cell df1 i c))
             \<noteq> out_str (to_out (right_promoted (renamed df2 ms)
                                   (alignment df1 df2 ms pks) c) (cell (renamed df2 ms) j c))}"
    unfolding joined_columns_def joined_row_def shared_columns_def
      row_mismatches_both [OF wf d r]
    by (auto simp: image_iff)
  then have "(c \<in> fst ` set (row_mismatches (joined_columns df1 df2 ms pks)
                              (shared_columns df1 df2 ms) (keys_used df1 df2 ms pks)
                              (joined_row df1 df2 ms pks (Some i, Some j))))
            \<longleftrightarrow> s \<noteq> (if v = PyNone then ''None'' else ''nan'')"
    using assms(6,7,9) str nint by (auto simp: to_out_not_int)
  moreover have "joined_row df1 df2 ms pks (Some i, Some j)
      \<in> set (rows (matches_frame df1 df2 ms pks))"
    using assms(5) by (simp add: matches_frame_def)
  ultimately show ?thesis by simp
qed

theorem null_stringification_witness:
  "compare_queries none_left none_right [] [''id''] = Inr none_report
   \<and> wf_df none_left \<and> wf_df none_right \<and> labels_unique none_left none_right [] [''id'']
   \<and> (Some 0, Some 0) \<in> set (alignment none_left none_right [] [''id''])
   \<and> ''name'' \<in> set (shared_columns none_left none_right [])
   \<and> ''name'' \<notin> set (keys_used none_left none_right [] [''id''])
   \<and> isna PyNone
   \<and> cell none_left 0 ''name'' = PyNone
   \<and> cell (renamed none_right []) 0 ''name'' = PyStr ''None''
   \<and> ''name'' \<notin> fst ` set (row_mismatches (joined_columns none_left none_right [] [''id''])
                              (shared_columns none_left none_right [])
                              (keys_used none_left none_right [] [''id''])
                              (joined_row none_left none_right [] [''id''] (Some 0, Some 0)))"
proof -
  have s: "(cell none_left 0 ''name'' = PyNone
            \<and> cell (renamed none_right []) 0 ''name'' = PyStr ''None'')
         \<or> (cell none_left 0 ''name'' = PyStr ''None''
            \<and> cell (renamed none_right []) 0 ''name'' = PyNone)"
    using none_facts(7,8) by simp
  have v: "isna PyNone" by simp
  show ?thesis
    using null_stringification [OF none_run none_facts(1-6) v s] none_run none_facts
    by simp
qed

text \<open>
  C9 as stated fails: \<open>None\<close> on the left against the text \<open>None\<close> on the right is no
  difference, and the report has no mismatch.
\<close>

theorem null_stringification_counterexample:
  "map_sum id mismatches (compare_queries none_left none_right [] [''id'']) = Inr []
   \<and> map_sum id (n_mismatches \<circ> summary)
       (compare_queries none_left none_right [] [''id'']) = Inr 0"
  by (simp add: none_run none_report_def)


section \<open>The partition of the rows\<close>

lemma map_out_plain_left_cells:
  "length (rows left ! i) = length (columns left) \<Longrightarrow>
     map out_plain (left_cells left on idx i) = rows left ! i"
  by (simp add: left_cells_def comp_def map_snd_zip)

lemma map_out_plain_right_cells:
  "map out_plain (right_cells right on idx j) = non_key_cells right on j"
  by (simp add: right_cells_def non_key_cells_def comp_def)

lemma left_part_left:
  assumes "wf_df left" "i < length (rows left)"
  shows "left_part left (merged_row left right on idx (Some i, b)) = left_cells left on idx i"
proof -
  have "length (left_cells left on idx i) = length (columns left)"
    using assms by (simp add: wf_df_nth length_left_cells)
  then show ?thesis
    by (cases b) (simp_all add: left_part_def)
qed

lemma left_part_right_only:
  "left_part left (merged_row left right on idx (None, Some j))
     = map (\<lambda>c. if c \<in> set on then Obj (cell right j c) else Obj NaN) (columns left)"
  by (simp add: left_part_def cell_def)

lemma right_part_both:
  assumes "wf_df left" "wf_df right" "i < length (rows left)" "j < length (rows right)"
  shows "right_part left right on (merged_row left right on idx (Some i, Some j))
     = right_cells right on idx j"
proof -
  have "length (left_cells left on idx i) = length (columns left)"
    "length (right_cells right on idx j) = length (right_kept (columns right) on)"
    using assms by (simp_all add: wf_df_nth length_left_cells length_right_cells)
  then show ?thesis
    by (simp add: right_part_def)
qed

lemma right_part_right_only:
  assumes "wf_df right" "j < length (rows right)"
  shows "right_part left right on (merged_row left right on idx (None, Some j))
     = right_cells right on idx j"
proof -
  have "length (right_cells right on idx j) = length (right_kept (columns right) on)"
    using assms by (simp add: wf_df_nth length_right_cells)
  then show ?thesis
    by (simp add: right_part_def)
qed

lemma right_part_left_only:
  assumes "wf_df left" "i < length (rows left)"
  shows "right_part left right on (merged_row left right on idx (Some i, None))
     = map (\<lambda>c. Obj NaN) (right_kept (columns right) on)"
proof -
  have "length (left_cells left on idx i) = length (columns left)"
    using assms by (simp add: wf_df_nth length_left_cells)
  then show ?thesis
    by (simp add: right_part_def)
qed

lemma last_merged_row:
  assumes "wf_df left" "wf_df right" "p \<in> set (join_indexers left right on)"
  shows "last (merged_row left right on idx p) = Obj (PyStr (indicator p))"
proof -
  obtain a b where "merged_row left right on idx p = a @ b @ [Obj (PyStr (indicator p))]"
    using merged_row_shape [OF assms] by blast
  then show ?thesis by simp
qed

lemma joined_row_left:
  assumes "wf_df df1" "wf_df df2" "p \<in> set (alignment df1 df2 ms pks)" "fst p = Some i"
  shows "map out_plain (left_part df1 (joined_row df1 df2 ms pks p)) = rows df1 ! i"
proof -
  have i: "i < length (rows df1)"
    using assms(3,4) unfolding alignment_def by (cases rule: in_join_cases) simp_all
  have "p = (Some i, snd p)"
    using assms(4) by (cases p) simp
  then have "left_part df1 (joined_row df1 df2 ms pks p)
      = left_cells df1 (keys_used df1 df2 ms pks) (alignment df1 df2 ms pks) i"
    unfolding joined_row_def using left_part_left [OF assms(1) i] by metis
  then show ?thesis
    using assms(1) i by (simp add: map_out_plain_left_cells wf_df_nth)
qed

lemma joined_row_right:
  assumes "wf_df df1" "wf_df df2" "p \<in> set (alignment df1 df2 ms pks)" "snd p = Some j"
  shows "map out_plain (right_part df1 (renamed df2 ms) (keys_used df1 df2 ms pks)
                          (joined_row df1 df2 ms pks p))
       = non_key_cells (renamed df2 ms) (keys_used df1 df2 ms pks) j"
proof -
  have wf: "wf_df (renamed df2 ms)"
    using assms(2) by simp
  have mem: "p \<in> set (join_indexers df1 (renamed df2 ms) (keys_used df1 df2 ms pks))"
    using assms(3) by (simp add: alignment_def)
  have "right_part df1 (renamed df2 ms) (keys_used df1 df2 ms pks) (joined_row df1 df2 ms pks p)
      = right_cells (renamed df2 ms) (keys_used df1 df2 ms pks) (alignment df1 df2 ms pks) j"
    using mem
  proof (cases rule: in_join_cases)
    case (both i' j')
    then show ?thesis
      using assms(4) right_part_both [OF assms(1) wf both(2,3)]
      by (simp add: joined_row_def alignment_def)
  next
    case (left i')
    then show ?thesis using assms(4) by simp
  next
    case (right j')
    then show ?thesis
      using assms(4) right_part_right_only [OF wf right(2)]
      by (simp add: joined_row_def alignment_def)
  qed
  then show ?thesis
    by (simp add: map_out_plain_right_cells)
qed

lemma joined_row_end:
  assumes "wf_df df1" "wf_df df2" "p \<in> set (alignment df1 df2 ms pks)"
  shows "last (joined_row df1 df2 ms pks p) = Obj (PyStr (indicator p))"
    and "length (joined_row df1 df2 ms pks p) = length (joined_columns df1 df2 ms pks)"
proof -
  have wf: "wf_df (renamed df2 ms)"
    using assms(2) by simp
  show "last (joined_row df1 df2 ms pks p) = Obj (PyStr (indicator p))"
    unfolding joined_row_def
    by (rule last_merged_row [OF assms(1) wf]) (use assms(3) in \<open>simp add: alignment_def\<close>)
  show "length (joined_row df1 df2 ms pks p) = length (joined_columns df1 df2 ms pks)"
    unfolding joined_row_def joined_columns_def
    by (rule length_merged_row [OF assms(1) wf]) (use assms(3) in \<open>simp add: alignment_def\<close>)
qed

lemma joined_row_left_only:
  assumes "wf_df df1" "(Some i, None) \<in> set (alignment df1 df2 ms pks)"
  shows "right_part df1 (renamed df2 ms) (keys_used df1 df2 ms pks)
           (joined_row df1 df2 ms pks (Some i, None))
       = map (\<lambda>c. Obj NaN) (right_kept (columns (renamed df2 ms)) (keys_used df1 df2 ms pks))"
proof -
  have "i < length (rows df1)"
    using assms(2) by (simp add: alignment_def left_in_join)
  then show ?thesis
    unfolding joined_row_def by (rule right_part_left_only [OF assms(1)])
qed

lemma unordered_facts:
  "(case compare_queries unordered_left unordered_right [] [''id''] of
      Inl e \<Rightarrow> False
    | Inr r \<Rightarrow> only_in_query1 r
          = [[(''id'', Obj (PyInt 7)), (''name_query1'', Obj (PyStr ''Z'')),
              (''name_query2'', Obj NaN), (''_merge'', Obj (PyStr ''left_only''))]]
        \<and> n_only_in_query1 (summary r) = 1 \<and> n_matches (summary r) = 2)"
  "wf_df unordered_left" "wf_df unordered_right"
  "\<not> same_key unordered_left (renamed unordered_right [])
       (keys_used unordered_left unordered_right [] [''id'']) 2 0"
  "\<not> same_key unordered_left (renamed unordered_right [])
       (keys_used unordered_left unordered_right [] [''id'']) 2 (Suc 0)"
  "(Some 2, None) \<in> set (alignment unordered_left unordered_right [] [''id''])"
  by code_simp+

text \<open>
  C3. The join aligns the rows of the two frames in pairs: a left row and a right row
  are paired exactly once when they have the same key and never otherwise (so the rows
  of one key are paired in a full cross product), a left row with no partner occurs
  exactly once on its own, and so does a right row with no partner; nothing else is in
  the alignment. The three categories split the alignment by the indicator, the counts
  of the summary are their sizes, and the lists of the report are the first 100 of
  their rows as records. No row loses its cells on the way: the row of the joined frame
  for a pair holds the cells of the left row of the pair under the labels of the left
  frame, and the cells of the right row outside the key under the labels of the right
  frame (an integer that the join has promoted reads as the float of the same value);
  a row of the right frame only holds its key under the key labels, and the cells of a
  missing side are \<open>NaN\<close>; the last cell is the indicator.
\<close>

theorem alignment_partition:
  assumes "compare_queries df1 df2 ms pks = Inr rep" "wf_df df1" "wf_df df2"
  shows "(\<forall>i < length (rows df1). \<forall>j < length (rows df2).
            count_list (alignment df1 df2 ms pks) (Some i, Some j) =
              (if same_key df1 (renamed df2 ms) (keys_used df1 df2 ms pks) i j then 1 else 0))
       \<and> (\<forall>i < length (rows df1).
            count_list (alignment df1 df2 ms pks) (Some i, None) =
              (if \<exists>j < length (rows df2). same_key df1 (renamed df2 ms) (keys_used df1 df2 ms pks) i j
               then 0 else 1))
       \<and> (\<forall>j < length (rows df2).
            count_list (alignment df1 df2 ms pks) (None, Some j) =
              (if \<exists>i < length (rows df1). same_key df1 (renamed df2 ms) (keys_used df1 df2 ms pks) i j
               then 0 else 1))
       \<and> (\<forall>p \<in> set (alignment df1 df2 ms pks).
            case p of (Some i, Some j) \<Rightarrow> i < length (rows df1) \<and> j < length (rows df2)
                    | (Some i, None) \<Rightarrow> i < length (rows df1)
                    | (None, Some j) \<Rightarrow> j < length (rows df2)
                    | (None, None) \<Rightarrow> False)
       \<and> n_matches (summary rep) =
            length (filter (\<lambda>p. indicator p = ''both'') (alignment df1 df2 ms pks))
       \<and> n_only_in_query1 (summary rep) =
            length (filter (\<lambda>p. indicator p = ''left_only'') (alignment df1 df2 ms pks))
       \<and> n_only_in_query2 (summary rep) =
            length (filter (\<lambda>p. indicator p = ''right_only'') (alignment df1 df2 ms pks))
       \<and> (\<forall>p \<in> set (alignment df1 df2 ms pks). \<forall>i. fst p = Some i \<longrightarrow>
            map out_plain (left_part df1 (joined_row df1 df2 ms pks p)) = rows df1 ! i)
       \<and> (\<forall>p \<in> set (alignment df1 df2 ms pks). \<forall>j. snd p = Some j \<longrightarrow>
            map out_plain (right_part df1 (renamed df2 ms) (keys_used df1 df2 ms pks)
                             (joined_row df1 df2 ms pks p))
              = non_key_cells (renamed df2 ms) (keys_used df1 df2 ms pks) j)
       \<and> (\<forall>j. (None, Some j) \<in> set (alignment df1 df2 ms pks) \<longrightarrow>
            left_part df1 (joined_row df1 df2 ms pks (None, Some j))
              = map (\<lambda>c. if c \<in> set (keys_used df1 df2 ms pks)
                          then Obj (cell (renamed df2 ms) j c) else Obj NaN) (columns df1))
       \<and> (\<forall>i. (Some i, None) \<in> set (alignment df1 df2 ms pks) \<longrightarrow>
            right_part df1 (renamed df2 ms) (keys_used df1 df2 ms pks)
                (joined_row df1 df2 ms pks (Some i, None))
              = map (\<lambda>c. Obj NaN)
                  (right_kept (columns (renamed df2 ms)) (keys_used df1 df2 ms pks)))
       \<and> (\<forall>p \<in> set (alignment df1 df2 ms pks).
            last (joined_row df1 df2 ms pks p) = Obj (PyStr (indicator p))
            \<and> length (joined_row df1 df2 ms pks p) = length (joined_columns df1 df2 ms pks))
       \<and> matches rep = take 100 (category_records df1 df2 ms pks ''both'')
       \<and> only_in_query1 rep = take 100 (category_records df1 df2 ms pks ''left_only'')
       \<and> only_in_query2 rep = take 100 (category_records df1 df2 ms pks ''right_only'')"
proof -
  have range: "case p of (Some i, Some j) \<Rightarrow> i < length (rows df1) \<and> j < length (rows df2)
                    | (Some i, None) \<Rightarrow> i < length (rows df1)
                    | (None, Some j) \<Rightarrow> j < length (rows df2)
                    | (None, None) \<Rightarrow> False"
    if "p \<in> set (alignment df1 df2 ms pks)" for p
    using that unfolding alignment_def
    by (cases rule: in_join_cases) simp_all
  have counts: "(\<forall>i < length (rows df1). \<forall>j < length (rows df2).
            count_list (alignment df1 df2 ms pks) (Some i, Some j) =
              (if same_key df1 (renamed df2 ms) (keys_used df1 df2 ms pks) i j then 1 else 0))
       \<and> (\<forall>i < length (rows df1).
            count_list (alignment df1 df2 ms pks) (Some i, None) =
              (if \<exists>j < length (rows df2). same_key df1 (renamed df2 ms) (keys_used df1 df2 ms pks) i j
               then 0 else 1))
       \<and> (\<forall>j < length (rows df2).
            count_list (alignment df1 df2 ms pks) (None, Some j) =
              (if \<exists>i < length (rows df1). same_key df1 (renamed df2 ms) (keys_used df1 df2 ms pks) i j
               then 0 else 1))"
    by (auto simp: alignment_counts)
  have right_only: "left_part df1 (joined_row df1 df2 ms pks (None, Some j))
              = map (\<lambda>c. if c \<in> set (keys_used df1 df2 ms pks)
                          then Obj (cell (renamed df2 ms) j c) else Obj NaN) (columns df1)" for j
    unfolding joined_row_def by (rule left_part_right_only)
  note sizes = category_sizes [OF assms]
  note lists = report_lists(1-3) [OF assms]
  note left = joined_row_left [OF assms(2,3)]
  note right = joined_row_right [OF assms(2,3)]
  note ends = joined_row_end [OF assms(2,3)]
  note left_only = joined_row_left_only [OF assms(2)]
  show ?thesis
    apply (intro conjI)
    subgoal using counts by blast
    subgoal using counts by blast
    subgoal using counts by blast
    subgoal using range by blast
    subgoal by (rule sizes(1))
    subgoal by (rule sizes(2))
    subgoal by (rule sizes(3))
    subgoal using left by blast
    subgoal using right by blast
    subgoal using right_only by blast
    subgoal using left_only by blast
    subgoal using ends by blast
    subgoal by (rule lists(1))
    subgoal by (rule lists(2))
    subgoal by (rule lists(3))
    done
qed

theorem alignment_partition_witness:
  "compare_queries unordered_left unordered_right [] [''id'']
     = Inr (projr (compare_queries unordered_left unordered_right [] [''id'']))
   \<and> wf_df unordered_left \<and> wf_df unordered_right
   \<and> count_list (alignment unordered_left unordered_right [] [''id'']) (Some 2, None) = 1
   \<and> map out_plain (left_part unordered_left
        (joined_row unordered_left unordered_right [] [''id''] (Some 2, None)))
       = [PyInt 7, PyStr ''Z'']
   \<and> only_in_query1 (projr (compare_queries unordered_left unordered_right [] [''id'']))
       = [[(''id'', Obj (PyInt 7)), (''name_query1'', Obj (PyStr ''Z'')),
           (''name_query2'', Obj NaN), (''_merge'', Obj (PyStr ''left_only''))]]
   \<and> take 100 (category_records unordered_left unordered_right [] [''id''] ''left_only'')
       = [[(''id'', Obj (PyInt 7)), (''name_query1'', Obj (PyStr ''Z'')),
           (''name_query2'', Obj NaN), (''_merge'', Obj (PyStr ''left_only''))]]
   \<and> length (filter (\<lambda>p. indicator p = ''both'')
        (alignment unordered_left unordered_right [] [''id''])) = 2"
proof -
  obtain r where r: "compare_queries unordered_left unordered_right [] [''id''] = Inr r"
    using unordered_facts(1)
    by (cases "compare_queries unordered_left unordered_right [] [''id'']") simp_all
  have v: "only_in_query1 r
          = [[(''id'', Obj (PyInt 7)), (''name_query1'', Obj (PyStr ''Z'')),
              (''name_query2'', Obj NaN), (''_merge'', Obj (PyStr ''left_only''))]]"
    "n_matches (summary r) = 2"
    using unordered_facts(1) by (simp_all add: r)
  note t = alignment_partition [OF r unordered_facts(2,3)]
  note t2 = t [THEN conjunct2, THEN conjunct1, rule_format]
  note t5 = t [THEN conjunct2, THEN conjunct2, THEN conjunct2, THEN conjunct2, THEN conjunct1]
  note t8 = t [THEN conjunct2, THEN conjunct2, THEN conjunct2, THEN conjunct2, THEN conjunct2,
               THEN conjunct2, THEN conjunct2, THEN conjunct1, rule_format]
  note t14 = t [THEN conjunct2, THEN conjunct2, THEN conjunct2, THEN conjunct2, THEN conjunct2,
               THEN conjunct2, THEN conjunct2, THEN conjunct2, THEN conjunct2, THEN conjunct2,
               THEN conjunct2, THEN conjunct2, THEN conjunct2, THEN conjunct1]
  have len: "length (rows unordered_left) = 3" "length (rows unordered_right) = 2"
    by (simp_all add: unordered_left_def unordered_right_def)
  have "\<not> (\<exists>j < length (rows unordered_right). same_key unordered_left (renamed unordered_right [])
             (keys_used unordered_left unordered_right [] [''id'']) 2 j)"
    using unordered_facts(4,5) len less_2_cases by auto
  then have c: "count_list (alignment unordered_left unordered_right [] [''id'']) (Some 2, None) = 1"
    using t2 [of 2] len by simp
  have "map out_plain (left_part unordered_left
        (joined_row unordered_left unordered_right [] [''id''] (Some 2, None)))
       = rows unordered_left ! 2"
    by (rule t8 [OF unordered_facts(6)]) simp
  then have l: "map out_plain (left_part unordered_left
        (joined_row unordered_left unordered_right [] [''id''] (Some 2, None)))
       = [PyInt 7, PyStr ''Z'']"
    by (simp add: unordered_left_def)
  have b: "length (filter (\<lambda>p. indicator p = ''both'')
        (alignment unordered_left unordered_right [] [''id''])) = 2"
    using t5 v(2) by simp
  show ?thesis
    using c l b t14 v(1) unordered_facts(2,3) by (simp add: r)
qed


section \<open>The schema of the preview records\<close>

lemma map_of_py_dict: "map_of (py_dict kvs) = map_of (rev kvs)"
  by (simp add: py_dict_def map_of_foldl_update)

lemma dom_foldl_update:
  "fst ` set (foldl (\<lambda>d kv. AList.update (fst kv) (snd kv) d) d kvs) = fst ` set d \<union> fst ` set kvs"
  by (induction kvs arbitrary: d) (auto simp: dom_update)

lemma distinct_foldl_update:
  "distinct (map fst d) \<Longrightarrow>
     distinct (map fst (foldl (\<lambda>d kv. AList.update (fst kv) (snd kv) d) d kvs))"
  by (induction kvs arbitrary: d) (simp_all add: distinct_update)

lemma py_dict_keys:
  "set (map fst (py_dict kvs)) = set (map fst kvs)" "distinct (map fst (py_dict kvs))"
  unfolding py_dict_def using dom_foldl_update [of "[]" kvs] distinct_foldl_update [of "[]" kvs]
  by simp_all

lemma indicator_last:
  assumes "wf_df left" "wf_df right" "p \<in> set (join_indexers left right on)"
  shows "map_of (rev (zip (merged_columns (columns left) (columns right) on)
           (merged_row left right on idx p))) ''_merge'' = Some (Obj (PyStr (indicator p)))"
proof -
  obtain a b where row0: "merged_row left right on idx p = a @ b @ [Obj (PyStr (indicator p))]"
    and la: "length a = length (columns left)"
    and lb: "length b = length (right_kept (columns right) on)"
    using merged_row_shape [OF assms(1-3), of idx] by blast
  have row: "merged_row left right on idx p = (a @ b) @ [Obj (PyStr (indicator p))]"
    using row0 by simp
  obtain front where cols: "merged_columns (columns left) (columns right) on = front @ [''_merge'']"
    and lf: "length front = length (columns left) + length (right_kept (columns right) on)"
    by (simp add: merged_columns_def Let_def)
  have "zip (front @ [''_merge'']) ((a @ b) @ [Obj (PyStr (indicator p))])
      = zip front (a @ b) @ [(''_merge'', Obj (PyStr (indicator p)))]"
    using la lb lf by (subst zip_append) simp_all
  then show ?thesis
    unfolding row cols by simp
qed

lemma category_record:
  assumes "compare_queries df1 df2 ms pks = Inr rep" "wf_df df1" "wf_df df2"
    and "rec \<in> set (category_records df1 df2 ms pks tag)"
  shows "set (map fst rec) = set (joined_columns df1 df2 ms pks)"
    and "distinct (map fst rec)"
    and "map_of rec ''_merge'' = Some (Obj (PyStr tag))"
    and "labels_unique df1 df2 ms pks \<Longrightarrow> map fst rec = joined_columns df1 df2 ms pks"
proof -
  have wf: "wf_df df1" "wf_df (renamed df2 ms)"
    using assms(2,3) by simp_all
  obtain p where p: "p \<in> set (join_indexers df1 (renamed df2 ms) (keys_used df1 df2 ms pks))"
    "indicator p = tag"
    "rec = py_dict (zip (joined_columns df1 df2 ms pks) (joined_row df1 df2 ms pks p))"
    using assms(4) by (auto simp: category_records_def alignment_def)
  have len: "length (joined_row df1 df2 ms pks p) = length (joined_columns df1 df2 ms pks)"
    unfolding joined_row_def joined_columns_def by (rule length_merged_row [OF wf p(1)])
  then have z: "map fst (zip (joined_columns df1 df2 ms pks) (joined_row df1 df2 ms pks p))
      = joined_columns df1 df2 ms pks"
    by simp
  show "set (map fst rec) = set (joined_columns df1 df2 ms pks)"
    unfolding p(3) by (simp only: py_dict_keys(1) z)
  show "distinct (map fst rec)"
    unfolding p(3) by (rule py_dict_keys(2))
  show "map_of rec ''_merge'' = Some (Obj (PyStr tag))"
    unfolding p(3) map_of_py_dict joined_row_def joined_columns_def
    using indicator_last [OF wf p(1)] p(2) by simp
  show "map fst rec = joined_columns df1 df2 ms pks" if "labels_unique df1 df2 ms pks"
  proof -
    have "distinct (map fst (zip (joined_columns df1 df2 ms pks) (joined_row df1 df2 ms pks p)))"
      unfolding z using that by (simp add: labels_unique_def joined_columns_def)
    then show ?thesis
      unfolding p(3) using z by (simp only: py_dict_distinct)
  qed
qed

lemma joined_columns_explicit:
  "joined_columns df1 df2 ms pks =
     map (\<lambda>c. if c \<in> set (shared_columns df1 df2 ms) \<and> c \<notin> set (keys_used df1 df2 ms pks)
               then c @ ''_query1'' else c) (columns df1)
     @ map (\<lambda>c. if c \<in> set (shared_columns df1 df2 ms) \<and> c \<notin> set (keys_used df1 df2 ms pks)
               then c @ ''_query2'' else c)
         (filter (\<lambda>c. c \<notin> set (keys_used df1 df2 ms pks)) (columns (renamed df2 ms)))
     @ [''_merge'']"
  unfolding joined_columns_def merged_columns_def Let_def
  by (auto simp: suffixed_def right_kept_def shared_columns_def common_columns_def)

lemma in_labels_cases:
  assumes "c \<in> set (map f xs @ map g ys @ [m])"
  obtains (left) x where "x \<in> set xs" "c = f x"
    | (right) y where "y \<in> set ys" "c = g y"
    | (last) "c = m"
  using assms by auto

lemma distinct_filter_count:
  "(\<And>x. P x \<Longrightarrow> count_list xs x \<le> 1) \<Longrightarrow> distinct (filter P xs)"
proof (induction xs)
  case Nil
  then show ?case by simp
next
  case (Cons a xs)
  have le: "count_list xs x \<le> 1" if "P x" for x
    using Cons.prems [OF that] by (simp split: if_splits)
  have "a \<notin> set xs" if "P a"
    using Cons.prems [OF that] by (simp add: count_list_0_iff [symmetric])
  with Cons.IH le show ?case by simp
qed

lemma key_columns_bound:
  assumes "check_keys lcols rcols on = None"
  shows "length (filter (\<lambda>c. c \<in> set on) rcols) \<le> length lcols"
proof -
  have "distinct (filter (\<lambda>c. c \<in> set on) rcols)"
    by (rule distinct_filter_count) (simp add: check_keys_None [OF assms])
  then have "length (filter (\<lambda>c. c \<in> set on) rcols) = card (set (filter (\<lambda>c. c \<in> set on) rcols))"
    by (rule distinct_card [symmetric])
  also have "\<dots> \<le> card (set lcols)"
    by (rule card_mono) (use check_keys_None [OF assms] in auto)
  also have "\<dots> \<le> length lcols"
    by (rule card_length)
  finally show ?thesis .
qed

lemma length_columns_renamed: "length (columns (renamed df2 ms)) = length (columns df2)"
  by (simp add: renamed_def rename_def)

lemma example_joined_columns:
  "joined_columns example_left example_right [] [''id'']
     = [''id'', ''name_query1'', ''name_query2'', ''_merge'']"
  by code_simp

text \<open>
  C10. The records of the three previews have the schema of the joined frame, not that
  of an input. Their fields are the labels of the joined frame (in that order when the
  labels are distinct; a dict keeps one field per label): the labels of the left frame,
  then the labels of the right frame outside the key, then \<open>_merge\<close>, where the label of
  every shared column outside the key is replaced by its name with the suffix
  \<open>_query1\<close> on the left and \<open>_query2\<close> on the right. So both suffixed names of such a
  column are fields, its own name is a field only when it is at once the suffixed name
  of another such column, the field \<open>_merge\<close> holds \<open>both\<close>, \<open>left_only\<close> or \<open>right_only\<close>
  according to the list, and the schema is neither the labels of the first input nor
  those of the second.
\<close>

theorem preview_record_schema:
  assumes "compare_queries df1 df2 ms pks = Inr rep" "wf_df df1" "wf_df df2"
  shows "(\<forall>rec \<in> set (matches rep).
            set (map fst rec) = set (joined_columns df1 df2 ms pks)
            \<and> distinct (map fst rec)
            \<and> (labels_unique df1 df2 ms pks \<longrightarrow> map fst rec = joined_columns df1 df2 ms pks)
            \<and> map_of rec ''_merge'' = Some (Obj (PyStr ''both'')))
       \<and> (\<forall>rec \<in> set (only_in_query1 rep).
            set (map fst rec) = set (joined_columns df1 df2 ms pks)
            \<and> distinct (map fst rec)
            \<and> (labels_unique df1 df2 ms pks \<longrightarrow> map fst rec = joined_columns df1 df2 ms pks)
            \<and> map_of rec ''_merge'' = Some (Obj (PyStr ''left_only'')))
       \<and> (\<forall>rec \<in> set (only_in_query2 rep).
            set (map fst rec) = set (joined_columns df1 df2 ms pks)
            \<and> distinct (map fst rec)
            \<and> (labels_unique df1 df2 ms pks \<longrightarrow> map fst rec = joined_columns df1 df2 ms pks)
            \<and> map_of rec ''_merge'' = Some (Obj (PyStr ''right_only'')))
       \<and> joined_columns df1 df2 ms pks =
            map (\<lambda>c. if c \<in> set (shared_columns df1 df2 ms)
                         \<and> c \<notin> set (keys_used df1 df2 ms pks)
                      then c @ ''_query1'' else c) (columns df1)
            @ map (\<lambda>c. if c \<in> set (shared_columns df1 df2 ms)
                           \<and> c \<notin> set (keys_used df1 df2 ms pks)
                        then c @ ''_query2'' else c)
                (filter (\<lambda>c. c \<notin> set (keys_used df1 df2 ms pks)) (columns (renamed df2 ms)))
            @ [''_merge'']
       \<and> (\<forall>c \<in> set (shared_columns df1 df2 ms). c \<notin> set (keys_used df1 df2 ms pks) \<longrightarrow>
            c @ ''_query1'' \<in> set (joined_columns df1 df2 ms pks)
            \<and> c @ ''_query2'' \<in> set (joined_columns df1 df2 ms pks)
            \<and> (c \<in> set (joined_columns df1 df2 ms pks) \<longrightarrow>
                 (\<exists>c' \<in> set (shared_columns df1 df2 ms). c' \<notin> set (keys_used df1 df2 ms pks)
                    \<and> (c = c' @ ''_query1'' \<or> c = c' @ ''_query2''))))
       \<and> joined_columns df1 df2 ms pks \<noteq> columns df1
       \<and> joined_columns df1 df2 ms pks \<noteq> columns df2"
proof -
  obtain merged where m: "pd_merge df1 (renamed df2 ms) (keys_used df1 df2 ms pks) = Inr merged"
    using compare_queries_Inr [OF assms(1)] by blast
  note l = report_lists(1-3) [OF assms]
  have rec: "set (map fst rec) = set (joined_columns df1 df2 ms pks)
            \<and> distinct (map fst rec)
            \<and> (labels_unique df1 df2 ms pks \<longrightarrow> map fst rec = joined_columns df1 df2 ms pks)
            \<and> map_of rec ''_merge'' = Some (Obj (PyStr tag))"
    if "rec \<in> set (take 100 (category_records df1 df2 ms pks tag))" for rec tag
  proof -
    have "rec \<in> set (category_records df1 df2 ms pks tag)"
      using that by (rule in_set_takeD)
    then show ?thesis
      using category_record [OF assms] by blast
  qed
  have suff: "c @ ''_query1'' \<in> set (joined_columns df1 df2 ms pks)
            \<and> c @ ''_query2'' \<in> set (joined_columns df1 df2 ms pks)
            \<and> (c \<in> set (joined_columns df1 df2 ms pks) \<longrightarrow>
                 (\<exists>c' \<in> set (shared_columns df1 df2 ms). c' \<notin> set (keys_used df1 df2 ms pks)
                    \<and> (c = c' @ ''_query1'' \<or> c = c' @ ''_query2'')))"
    if "c \<in> set (shared_columns df1 df2 ms)" "c \<notin> set (keys_used df1 df2 ms pks)" for c
  proof -
    have c: "c \<in> set (columns df1)" "c \<in> set (columns (renamed df2 ms))"
      using that(1) by (simp_all add: shared_columns_def common_columns_def)
    have "c @ ''_query1'' \<in> (\<lambda>c. if c \<in> set (shared_columns df1 df2 ms)
                         \<and> c \<notin> set (keys_used df1 df2 ms pks)
                      then c @ ''_query1'' else c) ` set (columns df1)"
      using that c(1) by (intro rev_image_eqI [of c]) simp_all
    then have q1: "c @ ''_query1'' \<in> set (joined_columns df1 df2 ms pks)"
      unfolding joined_columns_explicit set_append set_map by blast
    have "c @ ''_query2'' \<in> (\<lambda>c. if c \<in> set (shared_columns df1 df2 ms)
                         \<and> c \<notin> set (keys_used df1 df2 ms pks)
                      then c @ ''_query2'' else c)
            ` set (filter (\<lambda>c. c \<notin> set (keys_used df1 df2 ms pks)) (columns (renamed df2 ms)))"
      using that c(2) by (intro rev_image_eqI [of c]) simp_all
    then have q2: "c @ ''_query2'' \<in> set (joined_columns df1 df2 ms pks)"
      unfolding joined_columns_explicit set_append set_map by blast
    have "\<exists>c' \<in> set (shared_columns df1 df2 ms). c' \<notin> set (keys_used df1 df2 ms pks)
                    \<and> (c = c' @ ''_query1'' \<or> c = c' @ ''_query2'')"
      if j: "c \<in> set (joined_columns df1 df2 ms pks)"
    proof -
      have nm: "c \<noteq> ''_merge''"
        using c(1) pd_merge_Inr(4) [OF m] by auto
      have P: "c \<in> set (shared_columns df1 df2 ms) \<and> c \<notin> set (keys_used df1 df2 ms pks)"
        using \<open>c \<in> set (shared_columns df1 df2 ms)\<close> \<open>c \<notin> set (keys_used df1 df2 ms pks)\<close>
        by simp
      from j [unfolded joined_columns_explicit] show ?thesis
      proof (cases rule: in_labels_cases)
        case (left x)
        show ?thesis
        proof (cases "x \<in> set (shared_columns df1 df2 ms) \<and> x \<notin> set (keys_used df1 df2 ms pks)")
          case True
          with left(2) have "c = x @ ''_query1''" by simp
          with True show ?thesis by blast
        next
          case False
          with left(2) have "c = x" by simp
          with False P show ?thesis by blast
        qed
      next
        case (right y)
        show ?thesis
        proof (cases "y \<in> set (shared_columns df1 df2 ms) \<and> y \<notin> set (keys_used df1 df2 ms pks)")
          case True
          with right(2) have "c = y @ ''_query2''" by simp
          with True show ?thesis by blast
        next
          case False
          with right(2) have "c = y" by simp
          with False P show ?thesis by blast
        qed
      next
        case last
        with nm show ?thesis by simp
      qed
    qed
    with q1 q2 show ?thesis
      by blast
  qed
  have "''_merge'' \<in> set (joined_columns df1 df2 ms pks)"
    by (simp add: joined_columns_explicit)
  then have ne1: "joined_columns df1 df2 ms pks \<noteq> columns df1"
    using pd_merge_Inr(4) [OF m] by auto
  have "length (columns (renamed df2 ms))
      = length (filter (\<lambda>c. c \<in> set (keys_used df1 df2 ms pks)) (columns (renamed df2 ms)))
        + length (filter (\<lambda>c. c \<notin> set (keys_used df1 df2 ms pks)) (columns (renamed df2 ms)))"
    using sum_length_filter_compl [of "\<lambda>c. c \<in> set (keys_used df1 df2 ms pks)" "columns (renamed df2 ms)"]
    by simp
  also have "\<dots> \<le> length (columns df1)
        + length (filter (\<lambda>c. c \<notin> set (keys_used df1 df2 ms pks)) (columns (renamed df2 ms)))"
    using key_columns_bound [OF pd_merge_Inr(3) [OF m]] by simp
  also have "\<dots> < length (joined_columns df1 df2 ms pks)"
    by (simp add: joined_columns_explicit)
  finally have ne2: "joined_columns df1 df2 ms pks \<noteq> columns df2"
    using length_columns_renamed [of df2 ms] by auto
  show ?thesis
    unfolding l
    apply (intro conjI)
    subgoal using rec by blast
    subgoal using rec by blast
    subgoal using rec by blast
    subgoal by (rule joined_columns_explicit)
    subgoal using suff by blast
    subgoal by (rule ne1)
    subgoal by (rule ne2)
    done
qed

theorem preview_record_schema_witness:
  "compare_queries example_left example_right [] [''id''] = Inr example_report
   \<and> wf_df example_left \<and> wf_df example_right
   \<and> labels_unique example_left example_right [] [''id'']
   \<and> joined_columns example_left example_right [] [''id'']
       = [''id'', ''name_query1'', ''name_query2'', ''_merge'']
   \<and> only_in_query2 example_report
       = [[(''id'', Obj (PyInt 3)), (''name_query1'', Obj NaN),
           (''name_query2'', Obj (PyStr ''D'')), (''_merge'', Obj (PyStr ''right_only''))]]
   \<and> map fst (hd (only_in_query2 example_report))
       = [''id'', ''name_query1'', ''name_query2'', ''_merge'']
   \<and> map_of (hd (only_in_query2 example_report)) ''_merge'' = Some (Obj (PyStr ''right_only''))
   \<and> ''name'' \<in> set (shared_columns example_left example_right [])
   \<and> ''name'' \<notin> set (keys_used example_left example_right [] [''id''])
   \<and> ''name'' @ ''_query1'' \<in> set (joined_columns example_left example_right [] [''id''])
   \<and> ''name'' \<notin> set (joined_columns example_left example_right [] [''id''])"
proof -
  have s: "''name'' \<in> set (shared_columns example_left example_right [])"
    "''name'' \<notin> set (keys_used example_left example_right [] [''id''])"
    by code_simp+
  note t = preview_record_schema [OF example_run example_wf]
  note t3 = t [THEN conjunct2, THEN conjunct2, THEN conjunct1, rule_format]
  note t5 = t [THEN conjunct2, THEN conjunct2, THEN conjunct2, THEN conjunct2, THEN conjunct1,
               rule_format, OF s]
  have o: "only_in_query2 example_report
       = [[(''id'', Obj (PyInt 3)), (''name_query1'', Obj NaN),
           (''name_query2'', Obj (PyStr ''D'')), (''_merge'', Obj (PyStr ''right_only''))]]"
    by (simp add: example_report_def)
  have h: "hd (only_in_query2 example_report) \<in> set (only_in_query2 example_report)"
    unfolding o by simp
  have f: "map fst (hd (only_in_query2 example_report))
       = [''id'', ''name_query1'', ''name_query2'', ''_merge'']"
    using t3 [OF h, THEN conjunct2, THEN conjunct2, THEN conjunct1, rule_format,
              OF example_labels_unique]
    by (simp only: example_joined_columns)
  have g: "map_of (hd (only_in_query2 example_report)) ''_merge'' = Some (Obj (PyStr ''right_only''))"
    using t3 [OF h, THEN conjunct2, THEN conjunct2, THEN conjunct2] .
  have q: "''name'' @ ''_query1'' \<in> set (joined_columns example_left example_right [] [''id''])"
    using t5 [THEN conjunct1] .
  have n: "''name'' \<notin> set (joined_columns example_left example_right [] [''id''])"
    unfolding example_joined_columns by simp
  show ?thesis
    using example_run example_wf example_labels_unique example_joined_columns o f g s q n
    by blast
qed


end
